theory Spec2Isabelle
  imports Main "HOL-Library.Word"
begin

section \<open>Data model of \<^verbatim>\<open>mythril/analysis/symbolic.py\<close>\<close>

text \<open>
  The module holds one class, \<^verbatim>\<open>SymExecWrapper\<close>, whose constructor assembles a
  symbolic-execution session, runs it, and then decodes every call-family instruction
  of the produced statespace into a \<^verbatim>\<open>Call\<close> object. Exceptions are values of
  type \<open>error\<close>; a computation that may raise has type \<open>error + 'a\<close>.
\<close>

datatype error = ValueError string | IndexError

definition bind :: "error + 'a \<Rightarrow> ('a \<Rightarrow> error + 'b) \<Rightarrow> error + 'b" where
  "bind m f = (case m of Inl e \<Rightarrow> Inl e | Inr x \<Rightarrow> f x)"

text \<open>
  Stack entries and addresses are 256-bit bit-vectors of the SMT layer: either a
  definite value or an unresolved expression (named by an opaque string here).
  \<^verbatim>\<open>BitVec.value\<close> is the Python integer of a definite bit-vector and \<^verbatim>\<open>None\<close>
  for an unresolved one.
\<close>

datatype bitvec = BitVecVal "256 word" | BitVecSym string

fun bv_value :: "bitvec \<Rightarrow> int option" where
  "bv_value (BitVecVal w) = Some (uint w)"
| "bv_value (BitVecSym s) = None"

text \<open>
  Modelled from the spec: \<^verbatim>\<open>Variable\<close>, \<^verbatim>\<open>VarType\<close> and \<^verbatim>\<open>get_variable\<close> live in
  \<^verbatim>\<open>mythril/analysis/ops.py\<close>, which is not part of the sources at hand. The spec
  describes a value as a two-variant tagged union: a concrete value (a definite integer)
  or a symbolic value (an unresolved expression), and \<^verbatim>\<open>get_variable\<close> as the
  classification of a stack entry into exactly one of the two.
\<close>

datatype VarType = CONCRETE | SYMBOLIC

datatype Variable = Concrete int | Symbolic bitvec

fun var_type :: "Variable \<Rightarrow> VarType" where
  "var_type (Concrete i) = CONCRETE"
| "var_type (Symbolic e) = SYMBOLIC"

fun get_variable :: "bitvec \<Rightarrow> Variable" where
  "get_variable (BitVecVal w) = Concrete (uint w)"
| "get_variable (BitVecSym s) = Symbolic (BitVecSym s)"

text \<open>
  The statespace: a node groups an ordered sequence of states; a state has a machine
  state (operand stack with its top at the end of the list, byte memory) and a current
  instruction.
\<close>

record Instruction =
  opcode :: string
  argument :: string

text \<open>
  Modelled from the spec: the class \<^verbatim>\<open>Memory\<close> of the machine state is declared in
  \<^verbatim>\<open>mythril/laser/ethereum/state/memory.py\<close>, which is not part of the sources at
  hand. The spec calls it a linear memory region, an indexable byte sequence, and has a
  slice hold the bytes of its range exactly. Memory is a total map from 256-bit
  addresses to bytes, in which a cell that was never written reads as 0. An index is
  taken as a 256-bit address; a slice \<^verbatim>\<open>memory[start:stop]\<close> reads one cell for each
  address from \<open>start\<close> up to, and not including, \<open>stop\<close>, counting in 256-bit
  arithmetic.
\<close>

type_synonym Memory = "256 word \<Rightarrow> 8 word"

definition memory_getitem :: "Memory \<Rightarrow> int \<Rightarrow> 8 word" where
  "memory_getitem m i = m (word_of_int i)"

definition memory_getslice :: "Memory \<Rightarrow> int \<Rightarrow> int \<Rightarrow> 8 word list" where
  "memory_getslice m start stop =
     (let bvstart = word_of_int start :: 256 word;
          bvstop = word_of_int stop :: 256 word
      in map (\<lambda>itr. m (bvstart + word_of_nat itr)) [0 ..< unat (bvstop - bvstart)])"

record MachineState =
  stack :: "bitvec list"
  memory :: Memory

record GlobalState =
  mstate :: MachineState
  current_instruction :: Instruction

definition get_current_instruction :: "GlobalState \<Rightarrow> Instruction" where
  "get_current_instruction st = current_instruction st"

record Node =
  uid :: nat
  states :: "GlobalState list"

text \<open>
  Modelled from the spec: the class \<^verbatim>\<open>Call\<close> is declared in \<^verbatim>\<open>ops.py\<close> as well.
  A record holds what the constructor call passes: node, state, state index, opcode,
  target and gas always; the transferred value and the input data only where the call
  site passes them (\<open>None\<close> stands for an argument that is not passed).
\<close>

record Call =
  node :: Node
  state :: GlobalState
  state_index :: nat
  type :: string
  to :: Variable
  gas :: Variable
  call_value :: "Variable option"
  data :: "8 word list option"

subsection \<open>Python list indexing\<close>

text \<open>
  \<^verbatim>\<open>xs[i]\<close>: a negative index counts from the end, and an index outside the list
  raises \<^verbatim>\<open>IndexError\<close>.
\<close>

definition getitem :: "'a list \<Rightarrow> int \<Rightarrow> error + 'a" where
  "getitem xs i =
     (if 0 \<le> i then (if i < int (length xs) then Inr (xs ! nat i) else Inl IndexError)
      else (if - i \<le> int (length xs) then Inr (xs ! nat (int (length xs) + i))
            else Inl IndexError))"

section \<open>Call-site extraction (lines 196--272)\<close>

text \<open>
  The body of the inner loop, for one state. The loop state is the pair of the running
  \<^verbatim>\<open>state_index\<close> and the list \<^verbatim>\<open>self.calls\<close>. \<open>PRECOMPILE_COUNT\<close> is imported
  from \<^verbatim>\<open>mythril.laser.ethereum.natives\<close> and is a parameter here.

  The \<^verbatim>\<open>continue\<close> of line 226 leaves the loop body at once, so the increment of
  \<^verbatim>\<open>state_index\<close> in line 272 is not executed on that path.
\<close>

definition is_prebuilt :: "int \<Rightarrow> Variable \<Rightarrow> bool" where
  "is_prebuilt PRECOMPILE_COUNT v =
     (case v of Concrete t \<Rightarrow> 0 < t \<and> t \<le> PRECOMPILE_COUNT | Symbolic e \<Rightarrow> False)"

definition loop_body ::
  "int \<Rightarrow> Node \<Rightarrow> GlobalState \<Rightarrow> nat \<times> Call list \<Rightarrow> error + (nat \<times> Call list)" where
  "loop_body PRECOMPILE_COUNT nd st s =
    (case s of (idx, calls) \<Rightarrow>
      let instruction = get_current_instruction st;
          op = opcode instruction
      in
        if op \<in> set [''CALL'', ''CALLCODE'', ''DELEGATECALL'', ''STATICCALL''] then
          let stk = stack (mstate st) in
            if op \<in> set [''CALL'', ''CALLCODE''] then
              bind (getitem stk (- 1)) (\<lambda>e1.
              bind (getitem stk (- 2)) (\<lambda>e2.
              bind (getitem stk (- 3)) (\<lambda>e3.
              bind (getitem stk (- 4)) (\<lambda>e4.
              bind (getitem stk (- 5)) (\<lambda>e5.
              bind (getitem stk (- 6)) (\<lambda>e6.
              bind (getitem stk (- 7)) (\<lambda>e7.
                let gas = get_variable e1;
                    to = get_variable e2;
                    val = get_variable e3;
                    meminstart = get_variable e4;
                    meminsz = get_variable e5;
                    memoutstart = get_variable e6;
                    memoutsz = get_variable e7
                in
                  if is_prebuilt PRECOMPILE_COUNT to then
                    Inr (idx, calls)
                  else
                    (case (meminstart, meminsz) of
                       (Concrete start, Concrete sz) \<Rightarrow>
                         Inr (idx + 1, calls @
                           [\<lparr>node = nd, state = st, state_index = idx, type = op,
                             to = to, gas = gas, call_value = Some val,
                             data = Some (memory_getslice (memory (mstate st)) start (sz + start))\<rparr>])
                     | _ \<Rightarrow>
                         Inr (idx + 1, calls @
                           [\<lparr>node = nd, state = st, state_index = idx, type = op,
                             to = to, gas = gas, call_value = Some val,
                             data = None\<rparr>])))))))))
            else
              bind (getitem stk (- 1)) (\<lambda>e1.
              bind (getitem stk (- 2)) (\<lambda>e2.
              bind (getitem stk (- 3)) (\<lambda>e3.
              bind (getitem stk (- 4)) (\<lambda>e4.
              bind (getitem stk (- 5)) (\<lambda>e5.
              bind (getitem stk (- 6)) (\<lambda>e6.
                let gas = get_variable e1;
                    to = get_variable e2;
                    meminstart = get_variable e3;
                    meminsz = get_variable e4;
                    memoutstart = get_variable e5;
                    memoutsz = get_variable e6
                in
                  Inr (idx + 1, calls @
                    [\<lparr>node = nd, state = st, state_index = idx, type = op,
                      to = to, gas = gas, call_value = None, data = None\<rparr>])))))))
        else Inr (idx + 1, calls))"

text \<open>The inner loop over the states of one node (line 200).\<close>

fun for_states ::
  "int \<Rightarrow> Node \<Rightarrow> GlobalState list \<Rightarrow> nat \<times> Call list \<Rightarrow> error + (nat \<times> Call list)" where
  "for_states PRECOMPILE_COUNT nd [] s = Inr s"
| "for_states PRECOMPILE_COUNT nd (st # rest) s =
     bind (loop_body PRECOMPILE_COUNT nd st s) (for_states PRECOMPILE_COUNT nd rest)"

text \<open>
  The outer loop over the node dictionary (line 196), in the dictionary's iteration
  order. The dictionary is the list of its items; \<^verbatim>\<open>self.nodes[key]\<close> is the node of
  the item being visited. Each node starts with \<^verbatim>\<open>state_index = 0\<close> (line 198).
\<close>

fun for_nodes :: "int \<Rightarrow> (nat \<times> Node) list \<Rightarrow> Call list \<Rightarrow> error + Call list" where
  "for_nodes PRECOMPILE_COUNT [] calls = Inr calls"
| "for_nodes PRECOMPILE_COUNT ((key, nd) # rest) calls =
     bind (for_states PRECOMPILE_COUNT nd (states nd) (0, calls))
       (\<lambda>s. for_nodes PRECOMPILE_COUNT rest (snd s))"

definition extract_calls :: "int \<Rightarrow> (nat \<times> Node) list \<Rightarrow> error + Call list" where
  "extract_calls PRECOMPILE_COUNT nodes = for_nodes PRECOMPILE_COUNT nodes []"


section \<open>Orchestration (lines 82--194)\<close>

subsection \<open>Collaborators and arguments\<close>

text \<open>
  \<^verbatim>\<open>hex(n)\<close> of a Python integer: lower-case digits, most significant first, after
  the prefix \<^verbatim>\<open>0x\<close> (with a leading minus sign for a negative number).
\<close>

definition hex_digit :: "nat \<Rightarrow> char" where
  "hex_digit d = ''0123456789abcdef'' ! d"

fun hex_digits :: "nat \<Rightarrow> string" where
  "hex_digits n = (if n < 16 then [hex_digit n] else hex_digits (n div 16) @ [hex_digit (n mod 16)])"

declare hex_digits.simps [simp del]

definition hex :: "int \<Rightarrow> string" where
  "hex n = (if n < 0 then ''-0x'' @ hex_digits (nat (- n)) else ''0x'' @ hex_digits (nat n))"

text \<open>
  A dictionary whose iteration order matters is the list of its items in insertion
  order; storing under a key that is present replaces the value in place.
\<close>

fun setitem :: "('k \<times> 'v) list \<Rightarrow> 'k \<Rightarrow> 'v \<Rightarrow> ('k \<times> 'v) list" where
  "setitem [] k v = [(k, v)]"
| "setitem ((k', v') # d) k v = (if k' = k then (k, v) # d else (k', v') # setitem d k v)"

definition dict_display :: "('k \<times> 'v) list \<Rightarrow> ('k \<times> 'v) list" where
  "dict_display items = foldl (\<lambda>d kv. setitem d (fst kv) (snd kv)) [] items"

definition dict_values :: "('k \<times> 'v) list \<Rightarrow> 'v list" where
  "dict_values d = map snd d"

text \<open>Truth value of a Python string: the empty string is false.\<close>

definition truthy :: "string \<Rightarrow> bool" where
  "truthy s = (s \<noteq> [])"

datatype SearchStrategy =
  DepthFirstSearchStrategy
  | BreadthFirstSearchStrategy
  | ReturnRandomNaivelyStrategy
  | ReturnWeightedRandomStrategy

datatype StrategyExtension = BoundedLoopsStrategy

datatype Plugin = InstructionCoveragePlugin | MutationPruner | DependencyPruner

datatype EntryPoint = POST | CALLBACK

datatype InstructionProfiler = InstructionProfiler

type_synonym DetectionModule = string

type_synonym hook_dict = "(string \<times> string list) list"

type_synonym Edge = "nat \<times> nat"

record DynLoader =
  storage_loading :: bool

text \<open>
  The contract handed to the wrapper. \<^verbatim>\<open>SolidityContract\<close> is a subclass of
  \<^verbatim>\<open>EVMContract\<close>; \<open>OtherContract\<close> stands for an object of neither class.
\<close>

datatype ContractClass = SolidityContract | EVMContract | OtherContract

fun isinstance :: "ContractClass \<Rightarrow> ContractClass \<Rightarrow> bool" where
  "isinstance c SolidityContract = (c = SolidityContract)"
| "isinstance c EVMContract = (c = SolidityContract \<or> c = EVMContract)"
| "isinstance c OtherContract = True"

record Contract =
  contract_class :: ContractClass
  creation_code :: string
  name :: string
  disassembly :: string

text \<open>
  Modelled from the spec: the class \<^verbatim>\<open>Account\<close> is declared in
  \<^verbatim>\<open>mythril/laser/ethereum/state/account.py\<close>, outside the sources at hand. The spec
  gives an account an identity, its address, a 256-bit value; besides it an account
  holds what its constructor call passes: the bytecode, the dynamic loader, the contract
  name, and the concrete-storage flag where it is passed. An account built from the
  hexadecimal rendering \<^verbatim>\<open>hex(v)\<close> of an address has the address \<open>v\<close>, as a 256-bit
  value.
\<close>

record Account =
  account_address :: bitvec
  account_code :: string
  dynamic_loader :: "DynLoader option"
  contract_name :: "string option"
  concrete_storage :: "bool option"

text \<open>
  Modelled from the spec: \<^verbatim>\<open>WorldState\<close> is declared in
  \<^verbatim>\<open>mythril/laser/ethereum/state/world_state.py\<close>. The spec calls it a mapping from
  address to account. The key of an account is the value of its address (\<open>None\<close> for
  an address that is not definite); putting an account stores it under its key and
  replaces an account already there.
\<close>

type_synonym WorldState = "int option \<rightharpoonup> Account"

definition put_account :: "WorldState \<Rightarrow> Account \<Rightarrow> WorldState" where
  "put_account ws a = ws(bv_value (account_address a) \<mapsto> a)"

text \<open>The two forms of the \<^verbatim>\<open>sym_exec\<close> call (lines 162--172 and line 184).\<close>

datatype SymExec =
  CreationTransaction string string WorldState
  | DirectEntry WorldState "int option"

text \<open>
  The engine session: the keyword arguments of the \<^verbatim>\<open>LaserEVM\<close> constructor
  (lines 119--130), followed by what the wrapper does to the session afterwards:
  strategy extensions, loaded plugins, registered hooks.
\<close>

record LaserEVM =
  svm_dynamic_loader :: "DynLoader option"
  svm_max_depth :: int
  svm_execution_timeout :: "int option"
  svm_strategy :: SearchStrategy
  svm_create_timeout :: "int option"
  svm_transaction_count :: int
  svm_requires_statespace :: bool
  svm_iprof :: "InstructionProfiler option"
  svm_enable_coverage_strategy :: bool
  svm_instruction_laser_plugin :: Plugin
  svm_strategy_extensions :: "(StrategyExtension \<times> int) list"
  svm_plugins :: "Plugin list"
  svm_hooks :: "(string \<times> hook_dict) list"

definition extend_strategy :: "LaserEVM \<Rightarrow> StrategyExtension \<Rightarrow> int \<Rightarrow> LaserEVM" where
  "extend_strategy l ext bound =
     l\<lparr>svm_strategy_extensions := svm_strategy_extensions l @ [(ext, bound)]\<rparr>"

definition plugin_load :: "LaserEVM \<Rightarrow> Plugin \<Rightarrow> LaserEVM" where
  "plugin_load l p = l\<lparr>svm_plugins := svm_plugins l @ [p]\<rparr>"

definition register_hooks :: "LaserEVM \<Rightarrow> string \<Rightarrow> hook_dict \<Rightarrow> LaserEVM" where
  "register_hooks l hook_type hooks = l\<lparr>svm_hooks := svm_hooks l @ [(hook_type, hooks)]\<rparr>"

text \<open>
  What the wrapper imports and does not define: the precompile count, the two actor
  addresses used here, Python's \<^verbatim>\<open>int(_, 16)\<close> (with the \<^verbatim>\<open>ValueError\<close> it raises
  on a string it rejects), the module loader, the hooks of a list of modules, and the
  statespace (\<^verbatim>\<open>laser.nodes\<close>, \<^verbatim>\<open>laser.edges\<close>) that a run of the engine leaves
  behind.
\<close>

record Collaborators =
  precompile_count :: int
  actors_creator :: "256 word"
  actors_attacker :: "256 word"
  int_base16 :: "string \<Rightarrow> error + int"
  get_detection_modules :: "EntryPoint \<Rightarrow> string list option \<Rightarrow> DetectionModule list"
  get_detection_module_hooks :: "DetectionModule list \<Rightarrow> string \<Rightarrow> hook_dict"
  sym_exec :: "LaserEVM \<Rightarrow> SymExec \<Rightarrow> (nat \<times> Node) list \<times> Edge list"

datatype AddressArg = AddressStr string | AddressInt int | AddressBitVec bitvec

record Args =
  contract :: Contract
  address :: AddressArg
  strategy :: string
  dynloader :: "DynLoader option"
  max_depth :: int
  execution_timeout :: "int option"
  loop_bound :: "int option"
  create_timeout :: "int option"
  transaction_count :: int
  modules :: "string list option"
  compulsory_statespace :: bool
  iprof :: "InstructionProfiler option"
  disable_dependency_pruning :: bool
  run_analysis_modules :: bool
  enable_coverage_strategy :: bool
  custom_modules_directory :: string

text \<open>
  The object under construction. The attributes \<^verbatim>\<open>nodes\<close>, \<^verbatim>\<open>edges\<close> and
  \<^verbatim>\<open>calls\<close> are set only after the early return of line 187; \<open>None\<close> is an
  attribute that was never set. \<open>executed\<close> records the \<^verbatim>\<open>sym_exec\<close> call made.
\<close>

record SymExecWrapper =
  accounts :: "(string \<times> Account) list"
  laser :: LaserEVM
  executed :: SymExec
  nodes :: "(nat \<times> Node) list option"
  edges :: "Edge list option"
  calls :: "Call list option"

subsection \<open>The steps of the constructor\<close>

text \<open>Lines 82--85: the target address as a 256-bit bit-vector.\<close>

definition normalize_address :: "Collaborators \<Rightarrow> AddressArg \<Rightarrow> error + bitvec" where
  "normalize_address c a =
     (case a of
        AddressStr s \<Rightarrow> bind (int_base16 c s) (\<lambda>i. Inr (BitVecVal (word_of_int i)))
      | AddressInt i \<Rightarrow> Inr (BitVecVal (word_of_int i))
      | AddressBitVec b \<Rightarrow> Inr b)"

text \<open>Lines 87--96: the strategy selector.\<close>

definition select_strategy :: "string \<Rightarrow> error + SearchStrategy" where
  "select_strategy s =
     (if s = ''dfs'' then Inr DepthFirstSearchStrategy
      else if s = ''bfs'' then Inr BreadthFirstSearchStrategy
      else if s = ''naive-random'' then Inr ReturnRandomNaivelyStrategy
      else if s = ''weighted-random'' then Inr ReturnWeightedRandomStrategy
      else Inl (ValueError ''Invalid strategy argument supplied''))"

text \<open>Lines 98--103 and 109--115: the actor accounts.\<close>

definition creator_account :: "Collaborators \<Rightarrow> Account" where
  "creator_account c =
     \<lparr>account_address = BitVecVal (word_of_int (uint (actors_creator c))), account_code = [],
      dynamic_loader = None, contract_name = None, concrete_storage = None\<rparr>"

definition attacker_account :: "Collaborators \<Rightarrow> Account" where
  "attacker_account c =
     \<lparr>account_address = BitVecVal (word_of_int (uint (actors_attacker c))), account_code = [],
      dynamic_loader = None, contract_name = None, concrete_storage = None\<rparr>"

definition bootstrap_accounts :: "Collaborators \<Rightarrow> Contract \<Rightarrow> (string \<times> Account) list" where
  "bootstrap_accounts c ct =
     (if \<not> truthy (creation_code ct) then
        dict_display [(hex (uint (actors_attacker c)), attacker_account c)]
      else
        dict_display [(hex (uint (actors_creator c)), creator_account c),
                      (hex (uint (actors_attacker c)), attacker_account c)])"

text \<open>Lines 105--108: whether the statespace is kept.\<close>

definition requires_statespace :: "Collaborators \<Rightarrow> Args \<Rightarrow> bool" where
  "requires_statespace c a =
     (compulsory_statespace a \<or> length (get_detection_modules c POST (modules a)) > 0)"

text \<open>
  Lines 161--184: the run. The result is the world state after the branch and the
  \<^verbatim>\<open>sym_exec\<close> call it makes.
\<close>

definition dispatch :: "Args \<Rightarrow> bitvec \<Rightarrow> WorldState \<Rightarrow> WorldState \<times> SymExec" where
  "dispatch a addr world_state =
     (let ct = contract a in
      if isinstance (contract_class ct) SolidityContract then
        (world_state, CreationTransaction (creation_code ct) (name ct) world_state)
      else if isinstance (contract_class ct) EVMContract \<and> truthy (creation_code ct) then
        (world_state, CreationTransaction (creation_code ct) (name ct) world_state)
      else
        let account =
              \<lparr>account_address = addr, account_code = disassembly ct,
               dynamic_loader = dynloader a, contract_name = Some (name ct),
               concrete_storage =
                 Some (case dynloader a of None \<Rightarrow> False | Some d \<Rightarrow> storage_loading d)\<rparr>;
            world_state' = put_account world_state account
        in (world_state', DirectEntry world_state' (bv_value addr)))"

text \<open>The constructor, \<^verbatim>\<open>SymExecWrapper.__init__\<close>.\<close>

definition SymExecWrapper_init :: "Collaborators \<Rightarrow> Args \<Rightarrow> error + SymExecWrapper" where
  "SymExecWrapper_init c a =
     bind (normalize_address c (address a)) (\<lambda>addr.
     bind (select_strategy (strategy a)) (\<lambda>s_strategy.
       let requires = requires_statespace c a;
           accts = bootstrap_accounts c (contract a);
           instruction_laser_plugin = InstructionCoveragePlugin;
           l0 = \<lparr>svm_dynamic_loader = dynloader a,
                 svm_max_depth = max_depth a,
                 svm_execution_timeout = execution_timeout a,
                 svm_strategy = s_strategy,
                 svm_create_timeout = create_timeout a,
                 svm_transaction_count = transaction_count a,
                 svm_requires_statespace = requires,
                 svm_iprof = iprof a,
                 svm_enable_coverage_strategy = enable_coverage_strategy a,
                 svm_instruction_laser_plugin = instruction_laser_plugin,
                 svm_strategy_extensions = [],
                 svm_plugins = [],
                 svm_hooks = []\<rparr>;
           l1 = (case loop_bound a of
                   Some b \<Rightarrow> extend_strategy l0 BoundedLoopsStrategy b
                 | None \<Rightarrow> l0);
           l2 = plugin_load l1 MutationPruner;
           l3 = plugin_load l2 instruction_laser_plugin;
           l4 = (if \<not> disable_dependency_pruning a then plugin_load l3 DependencyPruner else l3);
           world_state = foldl put_account Map.empty (dict_values accts);
           l5 = (if run_analysis_modules a then
                   let analysis_modules = get_detection_modules c CALLBACK (modules a);
                       l' = register_hooks l4 ''pre''
                              (get_detection_module_hooks c analysis_modules ''pre'')
                   in register_hooks l' ''post''
                        (get_detection_module_hooks c analysis_modules ''post'')
                 else l4);
           run = snd (dispatch a addr world_state)
       in
         if \<not> requires then
           Inr \<lparr>accounts = accts, laser = l5, executed = run,
                nodes = None, edges = None, calls = None\<rparr>
         else
           let space = sym_exec c l5 run in
             bind (extract_calls (precompile_count c) (fst space)) (\<lambda>cs.
               Inr \<lparr>accounts = accts, laser = l5, executed = run,
                    nodes = Some (fst space), edges = Some (snd space),
                    calls = Some cs\<rparr>)))"

section \<open>Derived notions used in the statements\<close>

text \<open>How often a state occurs in the statespace, over all nodes.\<close>

definition occurrences :: "(nat \<times> Node) list \<Rightarrow> GlobalState \<Rightarrow> nat" where
  "occurrences graph st = sum_list (map (\<lambda>kn. count_list (states (snd kn)) st) graph)"


text \<open>
  The number of operands the extraction reads for an opcode (seven for the
  value-transferring calls, six for the others of the family, none otherwise), and the
  condition that a state's stack holds that many.
\<close>

definition operand_count :: "string \<Rightarrow> nat" where
  "operand_count op =
     (if op \<in> set [''CALL'', ''CALLCODE''] then 7
      else if op \<in> set [''DELEGATECALL'', ''STATICCALL''] then 6
      else 0)"

definition stack_sufficient :: "GlobalState \<Rightarrow> bool" where
  "stack_sufficient st =
     (operand_count (opcode (get_current_instruction st)) \<le> length (stack (mstate st)))"

text \<open>
  Shorthands for writing down concrete states, collaborators and arguments. A memory
  given by a list of bytes holds them from address 0 on and 0 elsewhere.
\<close>

definition memory_of_list :: "8 word list \<Rightarrow> Memory" where
  "memory_of_list bs = (\<lambda>a. if unat a < length bs then bs ! unat a else 0)"

definition machine_state :: "string \<Rightarrow> bitvec list \<Rightarrow> 8 word list \<Rightarrow> GlobalState" where
  "machine_state op stk mem =
     \<lparr>mstate = \<lparr>stack = stk, memory = memory_of_list mem\<rparr>,
      current_instruction = \<lparr>opcode = op, argument = []\<rparr>\<rparr>"

definition sample_collaborators ::
  "EntryPoint list \<Rightarrow> (nat \<times> Node) list \<Rightarrow> Collaborators" where
  "sample_collaborators phases graph =
     \<lparr>precompile_count = 9, actors_creator = 0xAFFE, actors_attacker = 0xDEADBEEF,
      int_base16 = (\<lambda>s. if s = ''0x10'' then Inr 16
                        else Inl (ValueError (''invalid literal for int() with base 16: '' @ s))),
      get_detection_modules = (\<lambda>e ms. if e \<in> set phases then [''Module''] else []),
      get_detection_module_hooks = (\<lambda>ms h. []),
      sym_exec = (\<lambda>l r. (graph, []))\<rparr>"

definition sample_args :: "Contract \<Rightarrow> string \<Rightarrow> bool \<Rightarrow> Args" where
  "sample_args ct strat compulsory =
     \<lparr>contract = ct, address = AddressInt 16, strategy = strat,
      dynloader = Some \<lparr>storage_loading = True\<rparr>, max_depth = 22, execution_timeout = None,
      loop_bound = Some 3, create_timeout = None, transaction_count = 2, modules = None,
      compulsory_statespace = compulsory, iprof = None,
      disable_dependency_pruning = False, run_analysis_modules = True,
      enable_coverage_strategy = False, custom_modules_directory = []\<rparr>"

section \<open>Properties of the extraction loop\<close>

subsection \<open>Reading the top of the stack\<close>

lemma getitem_neg:
  "0 < k \<Longrightarrow> k \<le> length xs \<Longrightarrow> getitem xs (- int k) = Inr (xs ! (length xs - k))"
  by (auto simp: getitem_def nat_diff_distrib')

lemma getitem_neg_short:
  "length xs < k \<Longrightarrow> getitem xs (- int k) = Inl IndexError"
  by (auto simp: getitem_def)

lemma getitem_cases: "getitem xs i = Inl IndexError \<or> (\<exists>x. getitem xs i = Inr x)"
  by (auto simp: getitem_def)

lemma top7:
  assumes "stk = below @ [e7, e6, e5, e4, e3, e2, e1]"
  shows "getitem stk (- 1) = Inr e1" "getitem stk (- 2) = Inr e2" "getitem stk (- 3) = Inr e3"
    "getitem stk (- 4) = Inr e4" "getitem stk (- 5) = Inr e5" "getitem stk (- 6) = Inr e6"
    "getitem stk (- 7) = Inr e7"
  using assms getitem_neg[of 1 stk] getitem_neg[of 2 stk] getitem_neg[of 3 stk]
    getitem_neg[of 4 stk] getitem_neg[of 5 stk] getitem_neg[of 6 stk] getitem_neg[of 7 stk]
  by (simp_all add: nth_append)

lemma top6:
  assumes "stk = below @ [e6, e5, e4, e3, e2, e1]"
  shows "getitem stk (- 1) = Inr e1" "getitem stk (- 2) = Inr e2" "getitem stk (- 3) = Inr e3"
    "getitem stk (- 4) = Inr e4" "getitem stk (- 5) = Inr e5" "getitem stk (- 6) = Inr e6"
  using assms getitem_neg[of 1 stk] getitem_neg[of 2 stk] getitem_neg[of 3 stk]
    getitem_neg[of 4 stk] getitem_neg[of 5 stk] getitem_neg[of 6 stk]
  by (simp_all add: nth_append)

lemma body_prebuilt:
  assumes "opcode (get_current_instruction st) \<in> {''CALL'', ''CALLCODE''}"
    and "stack (mstate st) = below @ [e7, e6, e5, e4, e3, e2, e1]"
    and "is_prebuilt PC (get_variable e2)"
  shows "loop_body PC nd st (idx, cs) = Inr (idx, cs)"
  using assms(1,3) by (auto simp: loop_body_def Let_def bind_def top7[OF assms(2)])

lemma body_value_call:
  assumes "opcode (get_current_instruction st) \<in> {''CALL'', ''CALLCODE''}"
    and "stack (mstate st) = below @ [e7, e6, e5, e4, e3, e2, e1]"
    and "\<not> is_prebuilt PC (get_variable e2)"
  shows "loop_body PC nd st (idx, cs) = Inr (idx + 1, cs @
           [\<lparr>node = nd, state = st, state_index = idx,
             type = opcode (get_current_instruction st),
             to = get_variable e2, gas = get_variable e1,
             call_value = Some (get_variable e3),
             data = (case (get_variable e4, get_variable e5) of
                       (Concrete start, Concrete sz) \<Rightarrow>
                          Some (memory_getslice (memory (mstate st)) start (sz + start))
                     | _ \<Rightarrow> None)\<rparr>])"
  using assms(1,3)
  by (auto simp: loop_body_def Let_def bind_def top7[OF assms(2)] split: Variable.splits)

lemma body_plain_call:
  assumes "opcode (get_current_instruction st) \<in> {''DELEGATECALL'', ''STATICCALL''}"
    and "stack (mstate st) = below @ [e6, e5, e4, e3, e2, e1]"
  shows "loop_body PC nd st (idx, cs) = Inr (idx + 1, cs @
           [\<lparr>node = nd, state = st, state_index = idx,
             type = opcode (get_current_instruction st),
             to = get_variable e2, gas = get_variable e1,
             call_value = None, data = None\<rparr>])"
  using assms(1)
  by (auto simp: loop_body_def Let_def bind_def top6[OF assms(2)])

lemma body_other:
  assumes "opcode (get_current_instruction st) \<notin> {''CALL'', ''CALLCODE'', ''DELEGATECALL'', ''STATICCALL''}"
  shows "loop_body PC nd st (idx, cs) = Inr (idx + 1, cs)"
  using assms by (auto simp: loop_body_def Let_def)

lemma lastn: "n \<le> length xs \<Longrightarrow> \<exists>below tp. xs = below @ tp \<and> length tp = n"
  by (metis append_take_drop_id diff_diff_cancel length_drop)

lemma len7: "length tp = 7 \<Longrightarrow> \<exists>e7 e6 e5 e4 e3 e2 e1. tp = [e7, e6, e5, e4, e3, e2, e1]"
  by (auto simp: length_Suc_conv eval_nat_numeral)

lemma len6: "length tp = 6 \<Longrightarrow> \<exists>e6 e5 e4 e3 e2 e1. tp = [e6, e5, e4, e3, e2, e1]"
  by (auto simp: length_Suc_conv eval_nat_numeral)

lemma body_short7:
  assumes "opcode (get_current_instruction st) \<in> {''CALL'', ''CALLCODE''}"
    and "length (stack (mstate st)) < 7"
  shows "loop_body PC nd st s = Inl IndexError"
proof -
  have g7: "getitem (stack (mstate st)) (- 7) = Inl IndexError"
    using getitem_neg_short[of "stack (mstate st)" 7] assms(2) by simp
  show ?thesis
    using assms(1) g7
      getitem_cases[of "stack (mstate st)" "- 1"] getitem_cases[of "stack (mstate st)" "- 2"]
      getitem_cases[of "stack (mstate st)" "- 3"] getitem_cases[of "stack (mstate st)" "- 4"]
      getitem_cases[of "stack (mstate st)" "- 5"] getitem_cases[of "stack (mstate st)" "- 6"]
    by (cases s) (auto simp: loop_body_def Let_def bind_def)
qed

lemma body_short6:
  assumes "opcode (get_current_instruction st) \<in> {''DELEGATECALL'', ''STATICCALL''}"
    and "length (stack (mstate st)) < 6"
  shows "loop_body PC nd st s = Inl IndexError"
proof -
  have g6: "getitem (stack (mstate st)) (- 6) = Inl IndexError"
    using getitem_neg_short[of "stack (mstate st)" 6] assms(2) by simp
  show ?thesis
    using assms(1) g6
      getitem_cases[of "stack (mstate st)" "- 1"] getitem_cases[of "stack (mstate st)" "- 2"]
      getitem_cases[of "stack (mstate st)" "- 3"] getitem_cases[of "stack (mstate st)" "- 4"]
      getitem_cases[of "stack (mstate st)" "- 5"]
    by (cases s) (auto simp: loop_body_def Let_def bind_def)
qed


lemma body_new_state:
  assumes "loop_body PC nd y (idx, cs) = Inr (idx', cs')"
  shows "\<exists>new. cs' = cs @ new \<and> (\<forall>r\<in>set new. state r = y \<and> node r = nd)"
  using assms
  by (auto simp: loop_body_def Let_def bind_def split: sum.splits if_splits Variable.splits)

lemma for_states_count:
  assumes step: "\<And>nd idx cs idx' cs'. loop_body PC nd x (idx, cs) = Inr (idx', cs') \<Longrightarrow>
            length (filter (\<lambda>r. state r = x) cs') = length (filter (\<lambda>r. state r = x) cs) + k"
    and run: "for_states PC nd sts (i, cs) = Inr (j, cs')"
  shows "length (filter (\<lambda>r. state r = x) cs') =
         length (filter (\<lambda>r. state r = x) cs) + k * count_list sts x"
  using run
proof (induction sts arbitrary: i cs)
  case Nil
  then show ?case by simp
next
  case (Cons y ys)
  from Cons.prems obtain i1 c1 where b: "loop_body PC nd y (i, cs) = Inr (i1, c1)"
    and r: "for_states PC nd ys (i1, c1) = Inr (j, cs')"
    by (auto simp: bind_def split: sum.splits)
  have ih: "length (filter (\<lambda>r. state r = x) cs') =
         length (filter (\<lambda>r. state r = x) c1) + k * count_list ys x"
    using Cons.IH[OF r] .
  show ?case
  proof (cases "y = x")
    case True
    with step b have "length (filter (\<lambda>r. state r = x) c1) = length (filter (\<lambda>r. state r = x) cs) + k"
      by blast
    with ih True show ?thesis by simp
  next
    case False
    from body_new_state[OF b] obtain new where "c1 = cs @ new" "\<forall>r\<in>set new. state r = y"
      by blast
    with False have "filter (\<lambda>r. state r = x) c1 = filter (\<lambda>r. state r = x) cs"
      by (auto simp: filter_empty_conv)
    with ih False show ?thesis by simp
  qed
qed

lemma for_nodes_count:
  assumes step: "\<And>nd idx cs idx' cs'. loop_body PC nd x (idx, cs) = Inr (idx', cs') \<Longrightarrow>
            length (filter (\<lambda>r. state r = x) cs') = length (filter (\<lambda>r. state r = x) cs) + k"
    and run: "for_nodes PC graph cs = Inr out"
  shows "length (filter (\<lambda>r. state r = x) out) =
         length (filter (\<lambda>r. state r = x) cs) + k * occurrences graph x"
  using run
proof (induction graph arbitrary: cs)
  case Nil
  then show ?case by (simp add: occurrences_def)
next
  case (Cons kn rest)
  obtain key nd where kn: "kn = (key, nd)" by (cases kn)
  from Cons.prems kn obtain j c1 where s: "for_states PC nd (states nd) (0, cs) = Inr (j, c1)"
    and r: "for_nodes PC rest c1 = Inr out"
    by (auto simp: bind_def split: sum.splits)
  from for_states_count[OF step s] Cons.IH[OF r] kn show ?case
    by (simp add: occurrences_def algebra_simps)
qed

lemma for_states_inv:
  assumes step: "\<And>nd y idx cs idx' cs'. loop_body PC nd y (idx, cs) = Inr (idx', cs') \<Longrightarrow>
            \<forall>r\<in>set cs. P r \<Longrightarrow> \<forall>r\<in>set cs'. P r"
    and run: "for_states PC nd sts (i, cs) = Inr (j, cs')"
    and init: "\<forall>r\<in>set cs. P r"
  shows "\<forall>r\<in>set cs'. P r"
  using run init
proof (induction sts arbitrary: i cs)
  case Nil
  then show ?case by simp
next
  case (Cons y ys)
  from Cons.prems obtain i1 c1 where b: "loop_body PC nd y (i, cs) = Inr (i1, c1)"
    and r: "for_states PC nd ys (i1, c1) = Inr (j, cs')"
    by (auto simp: bind_def split: sum.splits)
  from step[OF b Cons.prems(2)] Cons.IH[OF r] show ?case by blast
qed

lemma for_nodes_inv:
  assumes step: "\<And>nd y idx cs idx' cs'. loop_body PC nd y (idx, cs) = Inr (idx', cs') \<Longrightarrow>
            \<forall>r\<in>set cs. P r \<Longrightarrow> \<forall>r\<in>set cs'. P r"
    and run: "for_nodes PC graph cs = Inr out"
    and init: "\<forall>r\<in>set cs. P r"
  shows "\<forall>r\<in>set out. P r"
  using run init
proof (induction graph arbitrary: cs)
  case Nil
  then show ?case by simp
next
  case (Cons kn rest)
  obtain key nd where kn: "kn = (key, nd)" by (cases kn)
  from Cons.prems kn obtain j c1 where s: "for_states PC nd (states nd) (0, cs) = Inr (j, c1)"
    and r: "for_nodes PC rest c1 = Inr out"
    by (auto simp: bind_def split: sum.splits)
  have "\<forall>r\<in>set c1. P r"
    by (rule for_states_inv[where P = P, OF _ s Cons.prems(2)]) (rule step)
  from Cons.IH[OF r this] show ?case .
qed

lemma get_variable_range:
  assumes "get_variable e = Concrete i"
  shows "0 \<le> i" and "i < 2 ^ 256"
proof -
  from assms obtain w where "e = BitVecVal w" and i: "i = uint w"
    by (cases e) auto
  show "0 \<le> i" by (simp add: i)
  show "i < 2 ^ 256" using uint_bounded[of w] by (simp add: i)
qed

lemma unat_word_of_int_256:
  assumes "0 \<le> s" and "s < 2 ^ 256"
  shows "unat (word_of_int s :: 256 word) = nat s"
  using assms by (simp add: unat_eq_nat_uint uint_word_of_int take_bit_int_eq_self)

lemma memory_getslice_range:
  assumes "0 \<le> s" and "s < 2 ^ 256"
  shows "memory_getslice m a (s + a) = map (memory_getitem m) [a .. a + s - 1]"
proof (rule nth_equalityI)
  show "length (memory_getslice m a (s + a)) = length (map (memory_getitem m) [a .. a + s - 1])"
    using assms unat_word_of_int_256[OF assms] by (simp add: memory_getslice_def Let_def)
next
  fix i assume "i < length (memory_getslice m a (s + a))"
  then have i: "i < nat s"
    using assms unat_word_of_int_256[OF assms] by (simp add: memory_getslice_def Let_def)
  then have "[a .. a + s - 1] ! i = a + int i" by (intro nth_upto) linarith
  moreover have "length [a .. a + s - 1] = nat s" using assms by simp
  ultimately show "memory_getslice m a (s + a) ! i = map (memory_getitem m) [a .. a + s - 1] ! i"
    using i assms unat_word_of_int_256[OF assms]
    by (simp add: memory_getslice_def Let_def memory_getitem_def)
qed

lemma body_value_call_range:
  assumes "opcode (get_current_instruction st) \<in> {''CALL'', ''CALLCODE''}"
    and "stack (mstate st) = below @ [e7, e6, e5, e4, e3, e2, e1]"
    and "\<not> is_prebuilt PC (get_variable e2)"
  shows "loop_body PC nd st (idx, cs) = Inr (idx + 1, cs @
           [\<lparr>node = nd, state = st, state_index = idx,
             type = opcode (get_current_instruction st),
             to = get_variable e2, gas = get_variable e1,
             call_value = Some (get_variable e3),
             data = (case (get_variable e4, get_variable e5) of
                       (Concrete a, Concrete s) \<Rightarrow>
                          Some (map (memory_getitem (memory (mstate st))) [a .. a + s - 1])
                     | _ \<Rightarrow> None)\<rparr>])"
proof -
  have "(case (get_variable e4, get_variable e5) of
           (Concrete start, Concrete sz) \<Rightarrow>
              Some (memory_getslice (memory (mstate st)) start (sz + start))
         | _ \<Rightarrow> None) =
        (case (get_variable e4, get_variable e5) of
           (Concrete a, Concrete s) \<Rightarrow>
              Some (map (memory_getitem (memory (mstate st))) [a .. a + s - 1])
         | _ \<Rightarrow> None)"
  proof (cases "get_variable e4")
    case a: (Concrete a)
    show ?thesis
    proof (cases "get_variable e5")
      case s: (Concrete s)
      from memory_getslice_range[OF get_variable_range[OF s]] a s show ?thesis by simp
    next
      case (Symbolic x)
      with a show ?thesis by simp
    qed
  next
    case (Symbolic x)
    then show ?thesis by simp
  qed
  with body_value_call[OF assms, of nd idx cs] show ?thesis by simp
qed

lemma emitting_state_count:
  assumes emit: "\<And>nd idx cs. \<exists>r. loop_body PC nd st (idx, cs) = Inr (idx + 1, cs @ [r]) \<and> state r = st"
    and run: "extract_calls PC graph = Inr out"
  shows "length (filter (\<lambda>r. state r = st) out) = occurrences graph st"
proof -
  have step: "\<And>nd idx cs idx' cs'. loop_body PC nd st (idx, cs) = Inr (idx', cs') \<Longrightarrow>
            length (filter (\<lambda>r. state r = st) cs') = length (filter (\<lambda>r. state r = st) cs) + 1"
  proof -
    fix nd idx cs idx' cs'
    assume b: "loop_body PC nd st (idx, cs) = Inr (idx', cs')"
    from emit[of nd idx cs] obtain r where "loop_body PC nd st (idx, cs) = Inr (idx + 1, cs @ [r])"
      and "state r = st" by blast
    with b show "length (filter (\<lambda>r. state r = st) cs') = length (filter (\<lambda>r. state r = st) cs) + 1"
      by auto
  qed
  from for_nodes_count[where k = 1 and cs = "[]", OF step] run show ?thesis
    by (simp add: extract_calls_def)
qed

lemma emitted_records_inv:
  assumes emit: "\<And>nd idx cs. \<exists>r. loop_body PC nd st (idx, cs) = Inr (idx + 1, cs @ [r]) \<and> Q r"
    and run: "extract_calls PC graph = Inr out"
  shows "\<forall>r\<in>set out. state r = st \<longrightarrow> Q r"
proof -
  have step: "\<And>nd y idx cs idx' cs'. loop_body PC nd y (idx, cs) = Inr (idx', cs') \<Longrightarrow>
            \<forall>r\<in>set cs. state r = st \<longrightarrow> Q r \<Longrightarrow> \<forall>r\<in>set cs'. state r = st \<longrightarrow> Q r"
  proof -
    fix nd y idx cs idx' cs'
    assume b: "loop_body PC nd y (idx, cs) = Inr (idx', cs')"
      and i: "\<forall>r\<in>set cs. state r = st \<longrightarrow> Q r"
    show "\<forall>r\<in>set cs'. state r = st \<longrightarrow> Q r"
    proof (cases "y = st")
      case True
      from emit[of nd idx cs] obtain r where "loop_body PC nd st (idx, cs) = Inr (idx + 1, cs @ [r])"
        and "Q r" by blast
      with b True i show ?thesis by auto
    next
      case False
      from body_new_state[OF b] obtain new where "cs' = cs @ new" "\<forall>r\<in>set new. state r = y"
        by blast
      with False i show ?thesis by auto
    qed
  qed
  show ?thesis
    by (rule for_nodes_inv[where P = "\<lambda>r. state r = st \<longrightarrow> Q r" and cs = "[]", OF step])
       (use run in \<open>simp_all add: extract_calls_def\<close>)
qed

subsection \<open>Hexadecimal rendering is injective\<close>

lemma hex_digit_inj: "a < 16 \<Longrightarrow> b < 16 \<Longrightarrow> hex_digit a = hex_digit b \<Longrightarrow> a = b"
proof -
  assume a: "a < 16" and b: "b < 16" and e: "hex_digit a = hex_digit b"
  have d: "distinct ''0123456789abcdef''" by simp
  have l: "length ''0123456789abcdef'' = 16" by simp
  from e a b d l show "a = b"
    unfolding hex_digit_def by (metis nth_eq_iff_index_eq)
qed

lemma hex_digits_nonempty: "hex_digits n \<noteq> []"
  by (subst hex_digits.simps) simp

lemma hex_digits_inj: "hex_digits m = hex_digits n \<Longrightarrow> m = n"
proof (induction m arbitrary: n rule: hex_digits.induct)
  case (1 m)
  show ?case
  proof (cases "m < 16")
    case True
    then have m: "hex_digits m = [hex_digit m]" by (subst hex_digits.simps) simp
    show ?thesis
    proof (cases "n < 16")
      case n: True
      then have "hex_digits n = [hex_digit n]" by (subst hex_digits.simps) simp
      with m "1.prems" True n show ?thesis by (auto dest: hex_digit_inj)
    next
      case n: False
      then have "hex_digits n = hex_digits (n div 16) @ [hex_digit (n mod 16)]"
        by (subst hex_digits.simps) simp
      with m "1.prems" hex_digits_nonempty[of "n div 16"] show ?thesis by auto
    qed
  next
    case False
    then have m: "hex_digits m = hex_digits (m div 16) @ [hex_digit (m mod 16)]"
      by (subst hex_digits.simps) simp
    show ?thesis
    proof (cases "n < 16")
      case n: True
      then have "hex_digits n = [hex_digit n]" by (subst hex_digits.simps) simp
      with m "1.prems" hex_digits_nonempty[of "m div 16"] show ?thesis by auto
    next
      case n: False
      then have "hex_digits n = hex_digits (n div 16) @ [hex_digit (n mod 16)]"
        by (subst hex_digits.simps) simp
      with m "1.prems" have q: "hex_digits (m div 16) = hex_digits (n div 16)"
        and r: "hex_digit (m mod 16) = hex_digit (n mod 16)" by auto
      from "1.IH"[OF False q] have "m div 16 = n div 16" .
      moreover from r have "m mod 16 = n mod 16" by (rule hex_digit_inj[rotated 2]) simp_all
      ultimately show ?thesis by (metis div_mult_mod_eq)
    qed
  qed
qed

lemma hex_uint_inj: "hex (uint (a :: 256 word)) = hex (uint b) \<Longrightarrow> a = b"
proof -
  assume "hex (uint a) = hex (uint b)"
  then have "hex_digits (nat (uint a)) = hex_digits (nat (uint b))"
    by (simp add: hex_def)
  then have "nat (uint a) = nat (uint b)" by (rule hex_digits_inj)
  then show "a = b" by (simp add: word_unat_eq_iff)
qed

subsection \<open>When the extraction raises\<close>

lemma stack_top7:
  assumes "7 \<le> length (stk :: bitvec list)"
  shows "\<exists>below e7 e6 e5 e4 e3 e2 e1. stk = below @ [e7, e6, e5, e4, e3, e2, e1]"
  using lastn[OF assms] len7 by metis

lemma stack_top6:
  assumes "6 \<le> length (stk :: bitvec list)"
  shows "\<exists>below e6 e5 e4 e3 e2 e1. stk = below @ [e6, e5, e4, e3, e2, e1]"
  using lastn[OF assms] len6 by metis

lemma body_sufficient:
  assumes "stack_sufficient st"
  shows "\<exists>s'. loop_body PC nd st s = Inr s'"
proof -
  obtain idx cs where s: "s = (idx, cs)" by (cases s)
  let ?op = "opcode (get_current_instruction st)"
  consider (v) "?op \<in> {''CALL'', ''CALLCODE''}"
    | (p) "?op \<in> {''DELEGATECALL'', ''STATICCALL''}"
    | (o) "?op \<notin> {''CALL'', ''CALLCODE'', ''DELEGATECALL'', ''STATICCALL''}"
    by blast
  then show ?thesis
  proof cases
    case v
    with assms have "7 \<le> length (stack (mstate st))"
      by (auto simp: stack_sufficient_def operand_count_def)
    from stack_top7[OF this] obtain below e7 e6 e5 e4 e3 e2 e1
      where sh: "stack (mstate st) = below @ [e7, e6, e5, e4, e3, e2, e1]" by blast
    show ?thesis
    proof (cases "is_prebuilt PC (get_variable e2)")
      case True
      from body_prebuilt[OF v sh True] s show ?thesis by blast
    next
      case False
      from body_value_call[OF v sh False] s show ?thesis by blast
    qed
  next
    case p
    with assms have "6 \<le> length (stack (mstate st))"
      by (auto simp: stack_sufficient_def operand_count_def)
    from stack_top6[OF this] obtain below e6 e5 e4 e3 e2 e1
      where sh: "stack (mstate st) = below @ [e6, e5, e4, e3, e2, e1]" by blast
    from body_plain_call[OF p sh] s show ?thesis by blast
  next
    case o
    from body_other[OF o] s show ?thesis by blast
  qed
qed

lemma body_insufficient:
  assumes "\<not> stack_sufficient st"
  shows "loop_body PC nd st s = Inl IndexError"
proof -
  let ?op = "opcode (get_current_instruction st)"
  from assms have "(?op \<in> {''CALL'', ''CALLCODE''} \<and> length (stack (mstate st)) < 7)
      \<or> (?op \<in> {''DELEGATECALL'', ''STATICCALL''} \<and> length (stack (mstate st)) < 6)"
    by (auto simp: stack_sufficient_def operand_count_def split: if_splits)
  then show ?thesis
    using body_short7 body_short6 by blast
qed

lemma for_states_sufficient:
  "\<forall>st\<in>set sts. stack_sufficient st \<Longrightarrow> \<exists>s'. for_states PC nd sts s = Inr s'"
proof (induction sts arbitrary: s)
  case Nil
  then show ?case by simp
next
  case (Cons y ys)
  then have "stack_sufficient y" by simp
  from body_sufficient[OF this] obtain s1 where "loop_body PC nd y s = Inr s1" by blast
  moreover from Cons have "\<exists>s'. for_states PC nd ys s1 = Inr s'" by simp
  ultimately show ?case by (simp add: bind_def)
qed

lemma for_states_insufficient:
  "\<exists>st\<in>set sts. \<not> stack_sufficient st \<Longrightarrow> for_states PC nd sts s = Inl IndexError"
proof (induction sts arbitrary: s)
  case Nil
  then show ?case by simp
next
  case (Cons y ys)
  show ?case
  proof (cases "stack_sufficient y")
    case True
    from body_sufficient[OF this] obtain s1 where b: "loop_body PC nd y s = Inr s1" by blast
    from True Cons.prems have "\<exists>st\<in>set ys. \<not> stack_sufficient st" by auto
    from Cons.IH[OF this] b show ?thesis by (simp add: bind_def)
  next
    case False
    from body_insufficient[OF this] show ?thesis by (simp add: bind_def)
  qed
qed

lemma for_nodes_sufficient:
  "\<forall>kn\<in>set graph. \<forall>st\<in>set (states (snd kn)). stack_sufficient st \<Longrightarrow>
   \<exists>out. for_nodes PC graph cs = Inr out"
proof (induction graph arbitrary: cs)
  case Nil
  then show ?case by simp
next
  case (Cons kn rest)
  obtain key nd where kn: "kn = (key, nd)" by (cases kn)
  with Cons.prems have "\<forall>st\<in>set (states nd). stack_sufficient st" by simp
  from for_states_sufficient[OF this] obtain s1
    where "for_states PC nd (states nd) (0, cs) = Inr s1" by blast
  moreover from Cons have "\<exists>out. for_nodes PC rest (snd s1) = Inr out" by simp
  ultimately show ?case using kn by (simp add: bind_def)
qed

lemma for_nodes_insufficient:
  "\<exists>kn\<in>set graph. \<exists>st\<in>set (states (snd kn)). \<not> stack_sufficient st \<Longrightarrow>
   for_nodes PC graph cs = Inl IndexError"
proof (induction graph arbitrary: cs)
  case Nil
  then show ?case by simp
next
  case (Cons kn rest)
  obtain key nd where kn: "kn = (key, nd)" by (cases kn)
  show ?case
  proof (cases "\<forall>st\<in>set (states nd). stack_sufficient st")
    case True
    from for_states_sufficient[OF this] obtain s1
      where b: "for_states PC nd (states nd) (0, cs) = Inr s1" by blast
    from True Cons.prems kn
    have "\<exists>kn\<in>set rest. \<exists>st\<in>set (states (snd kn)). \<not> stack_sufficient st" by auto
    from Cons.IH[OF this] b kn show ?thesis by (simp add: bind_def)
  next
    case False
    then have "\<exists>st\<in>set (states nd). \<not> stack_sufficient st" by blast
    from for_states_insufficient[OF this] kn show ?thesis by (simp add: bind_def)
  qed
qed

section \<open>Claims about the call-site extraction\<close>

text \<open>
  C1. A \<^verbatim>\<open>CALL\<close> or \<^verbatim>\<open>CALLCODE\<close> state whose decoded target is concrete with a value
  \<open>t\<close>, \<open>0 < t \<le> PRECOMPILE_COUNT\<close>, is discarded: the loop body leaves the list of
  records as it is, and no record of a successful extraction refers to that state.
\<close>

theorem prebuilt_call_emits_no_record:
  assumes "opcode (get_current_instruction st) \<in> {''CALL'', ''CALLCODE''}"
    and "stack (mstate st) = below @ [e7, e6, e5, e4, e3, e2, e1]"
    and "get_variable e2 = Concrete t" and "0 < t" and "t \<le> PC"
    and "extract_calls PC graph = Inr out"
  shows "loop_body PC nd st (idx, cs) = Inr (idx, cs) \<and> (\<forall>r\<in>set out. state r \<noteq> st)"
proof -
  have pre: "is_prebuilt PC (get_variable e2)"
    using assms(3-5) by (simp add: is_prebuilt_def)
  have skip: "\<And>nd idx cs. loop_body PC nd st (idx, cs) = Inr (idx, cs)"
    by (rule body_prebuilt[OF assms(1,2) pre])
  have step: "\<And>nd y idx cs idx' cs'. loop_body PC nd y (idx, cs) = Inr (idx', cs') \<Longrightarrow>
            \<forall>r\<in>set cs. state r \<noteq> st \<Longrightarrow> \<forall>r\<in>set cs'. state r \<noteq> st"
  proof -
    fix nd y idx cs idx' cs'
    assume b: "loop_body PC nd y (idx, cs) = Inr (idx', cs')" and i: "\<forall>r\<in>set cs. state r \<noteq> st"
    show "\<forall>r\<in>set cs'. state r \<noteq> st"
    proof (cases "y = st")
      case True
      with b skip[of nd idx cs] have "cs' = cs" by simp
      with i show ?thesis by simp
    next
      case False
      from body_new_state[OF b] obtain new where "cs' = cs @ new" "\<forall>r\<in>set new. state r = y"
        by blast
      with False i show ?thesis by auto
    qed
  qed
  have "\<forall>r\<in>set out. state r \<noteq> st"
    by (rule for_nodes_inv[where P = "\<lambda>r. state r \<noteq> st" and cs = "[]", OF step])
       (use assms(6) in \<open>simp_all add: extract_calls_def\<close>)
  with skip show ?thesis by simp
qed

theorem prebuilt_call_emits_no_record_witness:
  "\<exists>st other nd out.
     st = machine_state ''CALL'' [BitVecVal 0, BitVecVal 0, BitVecVal 4, BitVecVal 0,
                                BitVecVal 0, BitVecVal 5, BitVecVal 100] []
   \<and> other = machine_state ''CALL'' [BitVecVal 0, BitVecVal 0, BitVecVal 4, BitVecVal 0,
                                BitVecVal 0, BitVecVal 0xdead, BitVecVal 100] []
   \<and> nd = \<lparr>uid = 0, states = [st, other]\<rparr>
   \<and> opcode (get_current_instruction st) \<in> {''CALL'', ''CALLCODE''}
   \<and> get_variable (BitVecVal 5) = Concrete 5 \<and> (0::int) < 5 \<and> (5::int) \<le> 9
   \<and> extract_calls 9 [(0, nd)] = Inr out \<and> length out = 1
   \<and> loop_body 9 nd st (0, []) = Inr (0, [])
   \<and> (\<forall>r\<in>set out. state r \<noteq> st)"
proof -
  let ?st = "machine_state ''CALL'' [BitVecVal 0, BitVecVal 0, BitVecVal 4, BitVecVal 0,
                                    BitVecVal 0, BitVecVal 5, BitVecVal 100] []"
  let ?other = "machine_state ''CALL'' [BitVecVal 0, BitVecVal 0, BitVecVal 4, BitVecVal 0,
                                    BitVecVal 0, BitVecVal 0xdead, BitVecVal 100] []"
  let ?nd = "\<lparr>uid = 0, states = [?st, ?other]\<rparr>"
  have h1: "opcode (get_current_instruction ?st) \<in> {''CALL'', ''CALLCODE''}"
    by (simp add: machine_state_def get_current_instruction_def)
  have h2: "stack (mstate ?st) = [] @ [BitVecVal 0, BitVecVal 0, BitVecVal 4, BitVecVal 0,
                                    BitVecVal 0, BitVecVal 5, BitVecVal 100]"
    by (simp add: machine_state_def)
  have h3: "get_variable (BitVecVal 5) = Concrete 5" by simp
  let ?out = "[\<lparr>node = ?nd, state = ?other, state_index = 0, type = ''CALL'',
                 to = Concrete 0xdead, gas = Concrete 100, call_value = Some (Concrete 0),
                 data = Some [0, 0, 0, 0]\<rparr>]"
  have h6: "extract_calls 9 [(0, ?nd)] = Inr ?out"
    by (simp add: machine_state_def extract_calls_def loop_body_def bind_def getitem_def
      is_prebuilt_def get_current_instruction_def memory_getslice_def memory_of_list_def
      upt_rec Let_def)
  from prebuilt_call_emits_no_record[OF h1 h2 h3 _ _ h6, of ?nd 0 "[]"]
  have "loop_body 9 ?nd ?st (0, []) = Inr (0, []) \<and> (\<forall>r\<in>set ?out. state r \<noteq> ?st)" by simp
  with h1 h3 h6 show ?thesis by simp
qed

text \<open>
  C2. A \<^verbatim>\<open>CALL\<close> or \<^verbatim>\<open>CALLCODE\<close> state that is not discarded yields one record with the
  opcode, target, gas and value operands. When the input offset \<open>o\<close> and the input size
  \<open>s\<close> are both concrete, its data field is the list of the \<open>s\<close> memory bytes at the
  positions \<open>o, o + 1, \<dots>, o + s - 1\<close>, the half-open range \<open>[o, o + s)\<close>; when either is
  symbolic the data field is absent. Every record of a successful extraction that refers
  to the state has these fields, and there is one record for each occurrence of the
  state.
\<close>

theorem value_call_record_data:
  assumes "opcode (get_current_instruction st) \<in> {''CALL'', ''CALLCODE''}"
    and "stack (mstate st) = below @ [e7, e6, e5, e4, e3, e2, e1]"
    and "\<not> is_prebuilt PC (get_variable e2)"
    and "extract_calls PC graph = Inr out"
  shows "loop_body PC nd st (idx, cs) = Inr (idx + 1, cs @
           [\<lparr>node = nd, state = st, state_index = idx,
             type = opcode (get_current_instruction st),
             to = get_variable e2, gas = get_variable e1,
             call_value = Some (get_variable e3),
             data = (case (get_variable e4, get_variable e5) of
                       (Concrete a, Concrete s) \<Rightarrow>
                          Some (map (memory_getitem (memory (mstate st))) [a .. a + s - 1])
                     | _ \<Rightarrow> None)\<rparr>])
       \<and> length (filter (\<lambda>r. state r = st) out) = occurrences graph st
       \<and> (\<forall>r\<in>set out. state r = st \<longrightarrow>
             type r = opcode (get_current_instruction st)
           \<and> to r = get_variable e2 \<and> gas r = get_variable e1
           \<and> call_value r = Some (get_variable e3)
           \<and> data r = (case (get_variable e4, get_variable e5) of
                         (Concrete a, Concrete s) \<Rightarrow>
                            Some (map (memory_getitem (memory (mstate st))) [a .. a + s - 1])
                       | _ \<Rightarrow> None))"
proof -
  let ?d = "case (get_variable e4, get_variable e5) of
              (Concrete a, Concrete s) \<Rightarrow>
                 Some (map (memory_getitem (memory (mstate st))) [a .. a + s - 1])
            | _ \<Rightarrow> None"
  let ?Q = "\<lambda>r. type r = opcode (get_current_instruction st)
           \<and> to r = get_variable e2 \<and> gas r = get_variable e1
           \<and> call_value r = Some (get_variable e3) \<and> data r = ?d"
  note body = body_value_call_range[OF assms(1-3)]
  have e1: "\<And>nd idx cs. \<exists>r. loop_body PC nd st (idx, cs) = Inr (idx + 1, cs @ [r]) \<and> state r = st"
    using body by simp
  have e2: "\<And>nd idx cs. \<exists>r. loop_body PC nd st (idx, cs) = Inr (idx + 1, cs @ [r]) \<and> ?Q r"
    using body by simp
  from emitting_state_count[OF e1 assms(4)]
  have c: "length (filter (\<lambda>r. state r = st) out) = occurrences graph st" .
  from emitted_records_inv[where Q = ?Q, OF e2 assms(4)]
  have q: "\<forall>r\<in>set out. state r = st \<longrightarrow> ?Q r" .
  from body[of nd idx cs] c q show ?thesis by blast
qed

text \<open>
  C3. A \<^verbatim>\<open>DELEGATECALL\<close> or \<^verbatim>\<open>STATICCALL\<close> state yields exactly one record, with the
  opcode, the target and the gas and neither value nor data, whatever the target is.
\<close>

theorem plain_call_record:
  assumes "opcode (get_current_instruction st) \<in> {''DELEGATECALL'', ''STATICCALL''}"
    and "stack (mstate st) = below @ [e6, e5, e4, e3, e2, e1]"
    and "extract_calls PC graph = Inr out"
  shows "loop_body PC nd st (idx, cs) = Inr (idx + 1, cs @
           [\<lparr>node = nd, state = st, state_index = idx,
             type = opcode (get_current_instruction st),
             to = get_variable e2, gas = get_variable e1,
             call_value = None, data = None\<rparr>])
       \<and> length (filter (\<lambda>r. state r = st) out) = occurrences graph st
       \<and> (\<forall>r\<in>set out. state r = st \<longrightarrow>
             type r = opcode (get_current_instruction st)
           \<and> to r = get_variable e2 \<and> gas r = get_variable e1
           \<and> call_value r = None \<and> data r = None)"
proof -
  let ?Q = "\<lambda>r. type r = opcode (get_current_instruction st)
           \<and> to r = get_variable e2 \<and> gas r = get_variable e1
           \<and> call_value r = None \<and> data r = None"
  note body = body_plain_call[OF assms(1,2)]
  have e1: "\<And>nd idx cs. \<exists>r. loop_body PC nd st (idx, cs) = Inr (idx + 1, cs @ [r]) \<and> state r = st"
    using body by simp
  have e2: "\<And>nd idx cs. \<exists>r. loop_body PC nd st (idx, cs) = Inr (idx + 1, cs @ [r]) \<and> ?Q r"
    using body by simp
  from emitting_state_count[OF e1 assms(3)]
  have c: "length (filter (\<lambda>r. state r = st) out) = occurrences graph st" .
  from emitted_records_inv[where Q = ?Q, OF e2 assms(3)]
  have q: "\<forall>r\<in>set out. state r = st \<longrightarrow> ?Q r" .
  from body[of PC nd idx cs] c q show ?thesis by blast
qed

text \<open>
  C10. The discard of C1 needs a concrete target: a \<^verbatim>\<open>CALL\<close> or \<^verbatim>\<open>CALLCODE\<close> state whose
  target is symbolic, or concrete and zero, or concrete and above
  \<open>PRECOMPILE_COUNT\<close>, always yields a record.
\<close>

theorem unfiltered_targets_emit:
  assumes "opcode (get_current_instruction st) \<in> {''CALL'', ''CALLCODE''}"
    and "stack (mstate st) = below @ [e7, e6, e5, e4, e3, e2, e1]"
    and "var_type (get_variable e2) = SYMBOLIC \<or> get_variable e2 = Concrete 0
         \<or> (\<exists>t. get_variable e2 = Concrete t \<and> PC < t)"
    and "extract_calls PC graph = Inr out"
  shows "(\<exists>r. loop_body PC nd st (idx, cs) = Inr (idx + 1, cs @ [r])
              \<and> node r = nd \<and> state r = st \<and> to r = get_variable e2)
       \<and> length (filter (\<lambda>r. state r = st) out) = occurrences graph st"
proof -
  have np: "\<not> is_prebuilt PC (get_variable e2)"
    using assms(3) by (cases "get_variable e2") (auto simp: is_prebuilt_def)
  note body = body_value_call[OF assms(1,2) np]
  have e1: "\<And>nd idx cs. \<exists>r. loop_body PC nd st (idx, cs) = Inr (idx + 1, cs @ [r]) \<and> state r = st"
    using body by simp
  from emitting_state_count[OF e1 assms(4)]
  have c: "length (filter (\<lambda>r. state r = st) out) = occurrences graph st" .
  from body[of nd idx cs] c show ?thesis by simp
qed


lemmas evs = machine_state_def extract_calls_def loop_body_def bind_def getitem_def
      is_prebuilt_def get_current_instruction_def memory_getslice_def memory_of_list_def
      upt_rec Let_def occurrences_def

theorem value_call_record_data_witness:
  "\<exists>st past sym nd out.
     st = machine_state ''CALL'' [BitVecVal 0, BitVecVal 0, BitVecVal 4, BitVecVal 0,
                                BitVecVal 7, BitVecVal 0xdead, BitVecVal 100]
                               [0xAA, 0xBB, 0xCC, 0xDD]
   \<and> past = machine_state ''CALL'' [BitVecVal 0, BitVecVal 0, BitVecVal 4, BitVecVal 2,
                                BitVecVal 7, BitVecVal 0xdead, BitVecVal 100]
                               [0xAA, 0xBB, 0xCC, 0xDD]
   \<and> sym = machine_state ''CALLCODE'' [BitVecVal 0, BitVecVal 0, BitVecSym ''size'', BitVecVal 0,
                                BitVecVal 7, BitVecVal 0xdead, BitVecVal 100]
                               [0xAA, 0xBB, 0xCC, 0xDD]
   \<and> nd = \<lparr>uid = 0, states = [st, past, sym]\<rparr>
   \<and> opcode (get_current_instruction st) \<in> {''CALL'', ''CALLCODE''}
   \<and> opcode (get_current_instruction past) \<in> {''CALL'', ''CALLCODE''}
   \<and> opcode (get_current_instruction sym) \<in> {''CALL'', ''CALLCODE''}
   \<and> \<not> is_prebuilt 9 (get_variable (BitVecVal 0xdead))
   \<and> extract_calls 9 [(0, nd)] = Inr out
   \<and> loop_body 9 nd st (0, []) = Inr (1,
        [\<lparr>node = nd, state = st, state_index = 0, type = ''CALL'',
          to = Concrete 0xdead, gas = Concrete 100, call_value = Some (Concrete 7),
          data = Some [0xAA, 0xBB, 0xCC, 0xDD]\<rparr>])
   \<and> length (filter (\<lambda>r. state r = st) out) = 1
   \<and> (\<forall>r\<in>set out. state r = st \<longrightarrow> data r = Some [0xAA, 0xBB, 0xCC, 0xDD])
   \<and> (\<forall>r\<in>set out. state r = past \<longrightarrow> data r = Some [0xCC, 0xDD, 0, 0])
   \<and> (\<forall>r\<in>set out. state r = sym \<longrightarrow> data r = None \<and> to r = Concrete 0xdead
          \<and> gas r = Concrete 100 \<and> call_value r = Some (Concrete 7) \<and> type r = ''CALLCODE'')"
proof -
  let ?mem = "[0xAA, 0xBB, 0xCC, 0xDD] :: 8 word list"
  let ?st = "machine_state ''CALL'' [BitVecVal 0, BitVecVal 0, BitVecVal 4, BitVecVal 0,
                                BitVecVal 7, BitVecVal 0xdead, BitVecVal 100] ?mem"
  let ?past = "machine_state ''CALL'' [BitVecVal 0, BitVecVal 0, BitVecVal 4, BitVecVal 2,
                                BitVecVal 7, BitVecVal 0xdead, BitVecVal 100] ?mem"
  let ?sym = "machine_state ''CALLCODE'' [BitVecVal 0, BitVecVal 0, BitVecSym ''size'', BitVecVal 0,
                                BitVecVal 7, BitVecVal 0xdead, BitVecVal 100] ?mem"
  let ?nd = "\<lparr>uid = 0, states = [?st, ?past, ?sym]\<rparr>"
  let ?out = "[\<lparr>node = ?nd, state = ?st, state_index = 0, type = ''CALL'',
                 to = Concrete 0xdead, gas = Concrete 100, call_value = Some (Concrete 7),
                 data = Some ?mem\<rparr>,
               \<lparr>node = ?nd, state = ?past, state_index = 1, type = ''CALL'',
                 to = Concrete 0xdead, gas = Concrete 100, call_value = Some (Concrete 7),
                 data = Some [0xCC, 0xDD, 0, 0]\<rparr>,
               \<lparr>node = ?nd, state = ?sym, state_index = 2, type = ''CALLCODE'',
                 to = Concrete 0xdead, gas = Concrete 100, call_value = Some (Concrete 7),
                 data = None\<rparr>]"
  have a1: "opcode (get_current_instruction ?st) \<in> {''CALL'', ''CALLCODE''}"
    by (simp add: machine_state_def get_current_instruction_def)
  have a2: "stack (mstate ?st) = [] @ [BitVecVal 0, BitVecVal 0, BitVecVal 4, BitVecVal 0,
                                BitVecVal 7, BitVecVal 0xdead, BitVecVal 100]"
    by (simp add: machine_state_def)
  have p1: "opcode (get_current_instruction ?past) \<in> {''CALL'', ''CALLCODE''}"
    by (simp add: machine_state_def get_current_instruction_def)
  have p2: "stack (mstate ?past) = [] @ [BitVecVal 0, BitVecVal 0, BitVecVal 4, BitVecVal 2,
                                BitVecVal 7, BitVecVal 0xdead, BitVecVal 100]"
    by (simp add: machine_state_def)
  have b1: "opcode (get_current_instruction ?sym) \<in> {''CALL'', ''CALLCODE''}"
    by (simp add: machine_state_def get_current_instruction_def)
  have b2: "stack (mstate ?sym) = [] @ [BitVecVal 0, BitVecVal 0, BitVecSym ''size'', BitVecVal 0,
                                BitVecVal 7, BitVecVal 0xdead, BitVecVal 100]"
    by (simp add: machine_state_def)
  have np: "\<not> is_prebuilt 9 (get_variable (BitVecVal 0xdead))"
    by (simp add: is_prebuilt_def)
  have run: "extract_calls 9 [(0, ?nd)] = Inr ?out"
    by (simp add: evs)
  have r0: "map (memory_getitem (memory_of_list ?mem)) [0 .. 0 + 4 - 1] = ?mem"
    by (simp add: memory_getitem_def memory_of_list_def upto.simps)
  have r2: "map (memory_getitem (memory_of_list ?mem)) [2 .. 2 + 4 - 1] = [0xCC, 0xDD, 0, 0]"
    by (simp add: memory_getitem_def memory_of_list_def upto.simps)
  have m: "memory (mstate ?st) = memory_of_list ?mem" "memory (mstate ?past) = memory_of_list ?mem"
    by (simp_all add: machine_state_def)
  from value_call_record_data[OF a1 a2 np run, of ?nd 0 "[]"]
  have A: "loop_body 9 ?nd ?st (0, []) = Inr (1,
        [\<lparr>node = ?nd, state = ?st, state_index = 0, type = ''CALL'',
          to = Concrete 0xdead, gas = Concrete 100, call_value = Some (Concrete 7),
          data = Some ?mem\<rparr>])"
    and B: "length (filter (\<lambda>r. state r = ?st) ?out) = 1"
    and C: "\<forall>r\<in>set ?out. state r = ?st \<longrightarrow> data r = Some ?mem"
    unfolding m r0
    by (simp_all add: machine_state_def get_current_instruction_def occurrences_def)
  from value_call_record_data[OF p1 p2 np run, of ?nd 0 "[]"]
  have P: "\<forall>r\<in>set ?out. state r = ?past \<longrightarrow> data r = Some [0xCC, 0xDD, 0, 0]"
    unfolding m r2
    by (simp add: machine_state_def get_current_instruction_def)
  from value_call_record_data[OF b1 b2 np run, of ?nd 0 "[]"]
  have D: "\<forall>r\<in>set ?out. state r = ?sym \<longrightarrow> data r = None \<and> to r = Concrete 0xdead
          \<and> gas r = Concrete 100 \<and> call_value r = Some (Concrete 7) \<and> type r = ''CALLCODE''"
    by (simp add: machine_state_def get_current_instruction_def)
  from a1 p1 b1 np run A B C P D show ?thesis by blast
qed

theorem plain_call_record_witness:
  "\<exists>st nd out.
     st = machine_state ''STATICCALL'' [BitVecVal 0, BitVecVal 0, BitVecVal 4, BitVecVal 0,
                                      BitVecVal 5, BitVecVal 100] [0xAA, 0xBB, 0xCC, 0xDD]
   \<and> nd = \<lparr>uid = 0, states = [st, machine_state ''STOP'' [] [], st]\<rparr>
   \<and> opcode (get_current_instruction st) \<in> {''DELEGATECALL'', ''STATICCALL''}
   \<and> is_prebuilt 9 (get_variable (BitVecVal 5))
   \<and> extract_calls 9 [(0, nd)] = Inr out
   \<and> loop_body 9 nd st (0, []) = Inr (1,
        [\<lparr>node = nd, state = st, state_index = 0, type = ''STATICCALL'',
          to = Concrete 5, gas = Concrete 100, call_value = None, data = None\<rparr>])
   \<and> length (filter (\<lambda>r. state r = st) out) = 2
   \<and> (\<forall>r\<in>set out. state r = st \<longrightarrow> type r = ''STATICCALL'' \<and> to r = Concrete 5
          \<and> gas r = Concrete 100 \<and> call_value r = None \<and> data r = None)"
proof -
  let ?st = "machine_state ''STATICCALL'' [BitVecVal 0, BitVecVal 0, BitVecVal 4, BitVecVal 0,
                                      BitVecVal 5, BitVecVal 100] [0xAA, 0xBB, 0xCC, 0xDD]"
  let ?nd = "\<lparr>uid = 0, states = [?st, machine_state ''STOP'' [] [], ?st]\<rparr>"
  let ?out = "[\<lparr>node = ?nd, state = ?st, state_index = 0, type = ''STATICCALL'',
                 to = Concrete 5, gas = Concrete 100, call_value = None, data = None\<rparr>,
               \<lparr>node = ?nd, state = ?st, state_index = 2, type = ''STATICCALL'',
                 to = Concrete 5, gas = Concrete 100, call_value = None, data = None\<rparr>]"
  have a1: "opcode (get_current_instruction ?st) \<in> {''DELEGATECALL'', ''STATICCALL''}"
    by (simp add: machine_state_def get_current_instruction_def)
  have a2: "stack (mstate ?st) = [] @ [BitVecVal 0, BitVecVal 0, BitVecVal 4, BitVecVal 0,
                                      BitVecVal 5, BitVecVal 100]"
    by (simp add: machine_state_def)
  have p: "is_prebuilt 9 (get_variable (BitVecVal 5))"
    by (simp add: is_prebuilt_def)
  have run: "extract_calls 9 [(0, ?nd)] = Inr ?out"
    by (simp add: evs)
  from plain_call_record[OF a1 a2 run, of ?nd 0 "[]"]
  have A: "loop_body 9 ?nd ?st (0, []) = Inr (1,
        [\<lparr>node = ?nd, state = ?st, state_index = 0, type = ''STATICCALL'',
          to = Concrete 5, gas = Concrete 100, call_value = None, data = None\<rparr>])"
    and B: "length (filter (\<lambda>r. state r = ?st) ?out) = 2"
    and C: "\<forall>r\<in>set ?out. state r = ?st \<longrightarrow> type r = ''STATICCALL'' \<and> to r = Concrete 5
          \<and> gas r = Concrete 100 \<and> call_value r = None \<and> data r = None"
    by (simp_all add: machine_state_def get_current_instruction_def occurrences_def)
  from a1 p run A B C show ?thesis by blast
qed

theorem unfiltered_targets_emit_witness:
  "\<exists>sym zero high nd out.
     sym = machine_state ''CALL'' [BitVecVal 0, BitVecVal 0, BitVecVal 0, BitVecVal 0,
                                 BitVecVal 0, BitVecSym ''target'', BitVecVal 100] []
   \<and> zero = machine_state ''CALL'' [BitVecVal 0, BitVecVal 0, BitVecVal 0, BitVecVal 0,
                                 BitVecVal 0, BitVecVal 0, BitVecVal 100] []
   \<and> high = machine_state ''CALLCODE'' [BitVecVal 0, BitVecVal 0, BitVecVal 0, BitVecVal 0,
                                 BitVecVal 0, BitVecVal 10, BitVecVal 100] []
   \<and> nd = \<lparr>uid = 0, states = [sym, zero, high]\<rparr>
   \<and> var_type (get_variable (BitVecSym ''target'')) = SYMBOLIC
   \<and> get_variable (BitVecVal 0) = Concrete 0
   \<and> get_variable (BitVecVal 10) = Concrete 10 \<and> (9::int) < 10
   \<and> extract_calls 9 [(0, nd)] = Inr out
   \<and> (\<exists>r. loop_body 9 nd sym (0, []) = Inr (1, [r]) \<and> to r = Symbolic (BitVecSym ''target''))
   \<and> (\<exists>r. loop_body 9 nd zero (0, []) = Inr (1, [r]) \<and> to r = Concrete 0)
   \<and> (\<exists>r. loop_body 9 nd high (0, []) = Inr (1, [r]) \<and> to r = Concrete 10)
   \<and> length (filter (\<lambda>r. state r = sym) out) = 1
   \<and> length (filter (\<lambda>r. state r = zero) out) = 1
   \<and> length (filter (\<lambda>r. state r = high) out) = 1"
proof -
  let ?sym = "machine_state ''CALL'' [BitVecVal 0, BitVecVal 0, BitVecVal 0, BitVecVal 0,
                                 BitVecVal 0, BitVecSym ''target'', BitVecVal 100] []"
  let ?zero = "machine_state ''CALL'' [BitVecVal 0, BitVecVal 0, BitVecVal 0, BitVecVal 0,
                                 BitVecVal 0, BitVecVal 0, BitVecVal 100] []"
  let ?high = "machine_state ''CALLCODE'' [BitVecVal 0, BitVecVal 0, BitVecVal 0, BitVecVal 0,
                                 BitVecVal 0, BitVecVal 10, BitVecVal 100] []"
  let ?nd = "\<lparr>uid = 0, states = [?sym, ?zero, ?high]\<rparr>"
  let ?out = "[\<lparr>node = ?nd, state = ?sym, state_index = 0, type = ''CALL'',
                 to = Symbolic (BitVecSym ''target''), gas = Concrete 100,
                 call_value = Some (Concrete 0), data = Some []\<rparr>,
               \<lparr>node = ?nd, state = ?zero, state_index = 1, type = ''CALL'',
                 to = Concrete 0, gas = Concrete 100,
                 call_value = Some (Concrete 0), data = Some []\<rparr>,
               \<lparr>node = ?nd, state = ?high, state_index = 2, type = ''CALLCODE'',
                 to = Concrete 10, gas = Concrete 100,
                 call_value = Some (Concrete 0), data = Some []\<rparr>]"
  have o1: "opcode (get_current_instruction ?sym) \<in> {''CALL'', ''CALLCODE''}"
    and o2: "opcode (get_current_instruction ?zero) \<in> {''CALL'', ''CALLCODE''}"
    and o3: "opcode (get_current_instruction ?high) \<in> {''CALL'', ''CALLCODE''}"
    by (simp_all add: machine_state_def get_current_instruction_def)
  have s1: "stack (mstate ?sym) = [] @ [BitVecVal 0, BitVecVal 0, BitVecVal 0, BitVecVal 0,
                                 BitVecVal 0, BitVecSym ''target'', BitVecVal 100]"
    and s2: "stack (mstate ?zero) = [] @ [BitVecVal 0, BitVecVal 0, BitVecVal 0, BitVecVal 0,
                                 BitVecVal 0, BitVecVal 0, BitVecVal 100]"
    and s3: "stack (mstate ?high) = [] @ [BitVecVal 0, BitVecVal 0, BitVecVal 0, BitVecVal 0,
                                 BitVecVal 0, BitVecVal 10, BitVecVal 100]"
    by (simp_all add: machine_state_def)
  have t1: "var_type (get_variable (BitVecSym ''target'')) = SYMBOLIC \<or>
            get_variable (BitVecSym ''target'') = Concrete 0 \<or>
            (\<exists>t. get_variable (BitVecSym ''target'') = Concrete t \<and> 9 < t)"
    by simp
  have t2: "var_type (get_variable (BitVecVal 0)) = SYMBOLIC \<or>
            get_variable (BitVecVal 0) = Concrete 0 \<or>
            (\<exists>t. get_variable (BitVecVal 0) = Concrete t \<and> 9 < t)"
    by simp
  have t3: "var_type (get_variable (BitVecVal 10)) = SYMBOLIC \<or>
            get_variable (BitVecVal 10) = Concrete 0 \<or>
            (\<exists>t. get_variable (BitVecVal 10) = Concrete t \<and> 9 < t)"
    by simp
  have run: "extract_calls 9 [(0, ?nd)] = Inr ?out"
    by (simp add: evs)
  note A0 = unfiltered_targets_emit[OF o1 s1 t1 run, of ?nd 0 "[]"]
  from A0 have A: "\<exists>r. loop_body 9 ?nd ?sym (0, []) = Inr (1, [r]) \<and> to r = Symbolic (BitVecSym ''target'')"
    by auto
  from A0 have A': "length (filter (\<lambda>r. state r = ?sym) ?out) = 1"
    by (simp add: machine_state_def occurrences_def)
  note B0 = unfiltered_targets_emit[OF o2 s2 t2 run, of ?nd 0 "[]"]
  from B0 have B: "\<exists>r. loop_body 9 ?nd ?zero (0, []) = Inr (1, [r]) \<and> to r = Concrete 0"
    by auto
  from B0 have B': "length (filter (\<lambda>r. state r = ?zero) ?out) = 1"
    by (simp add: machine_state_def occurrences_def)
  note C0 = unfiltered_targets_emit[OF o3 s3 t3 run, of ?nd 0 "[]"]
  from C0 have C: "\<exists>r. loop_body 9 ?nd ?high (0, []) = Inr (1, [r]) \<and> to r = Concrete 10"
    by auto
  from C0 have C': "length (filter (\<lambda>r. state r = ?high) ?out) = 1"
    by (simp add: machine_state_def occurrences_def)
  have g: "var_type (get_variable (BitVecSym ''target'')) = SYMBOLIC"
    "get_variable (BitVecVal 0) = Concrete 0"
    "get_variable (BitVecVal 10) = Concrete 10" "(9::int) < 10" by simp_all
  from g run A A' B B' C C' show ?thesis by blast
qed

text \<open>
  C9. The extraction reads seven stack entries at a \<^verbatim>\<open>CALL\<close> or \<^verbatim>\<open>CALLCODE\<close> state and
  six at a \<^verbatim>\<open>DELEGATECALL\<close> or \<^verbatim>\<open>STATICCALL\<close> state, before it looks at any of them. A
  state with fewer entries makes the loop body, and with it the whole extraction, raise
  \<^verbatim>\<open>IndexError\<close>; the extraction returns exactly when every state of the statespace has
  the operands of its opcode.
\<close>

theorem extraction_needs_operands:
  "operand_count ''CALL'' = 7 \<and> operand_count ''CALLCODE'' = 7
   \<and> operand_count ''DELEGATECALL'' = 6 \<and> operand_count ''STATICCALL'' = 6
   \<and> (\<not> stack_sufficient st \<longrightarrow> loop_body PC nd st s = Inl IndexError)
   \<and> (stack_sufficient st \<longrightarrow> (\<exists>s'. loop_body PC nd st s = Inr s'))
   \<and> ((\<exists>kn\<in>set graph. \<exists>x\<in>set (states (snd kn)). \<not> stack_sufficient x)
        \<longrightarrow> extract_calls PC graph = Inl IndexError)
   \<and> ((\<forall>kn\<in>set graph. \<forall>x\<in>set (states (snd kn)). stack_sufficient x)
        \<longrightarrow> (\<exists>out. extract_calls PC graph = Inr out))"
proof -
  have c: "operand_count ''CALL'' = 7 \<and> operand_count ''CALLCODE'' = 7
   \<and> operand_count ''DELEGATECALL'' = 6 \<and> operand_count ''STATICCALL'' = 6"
    by (simp add: operand_count_def)
  have b1: "\<not> stack_sufficient st \<longrightarrow> loop_body PC nd st s = Inl IndexError"
    using body_insufficient by blast
  have b2: "stack_sufficient st \<longrightarrow> (\<exists>s'. loop_body PC nd st s = Inr s')"
    using body_sufficient by blast
  have g1: "(\<exists>kn\<in>set graph. \<exists>x\<in>set (states (snd kn)). \<not> stack_sufficient x)
        \<longrightarrow> extract_calls PC graph = Inl IndexError"
    unfolding extract_calls_def using for_nodes_insufficient by blast
  have g2: "(\<forall>kn\<in>set graph. \<forall>x\<in>set (states (snd kn)). stack_sufficient x)
        \<longrightarrow> (\<exists>out. extract_calls PC graph = Inr out)"
    unfolding extract_calls_def using for_nodes_sufficient by blast
  from c b1 b2 g1 g2 show ?thesis by blast
qed

theorem extraction_needs_operands_witness:
  "\<exists>short full.
     short = machine_state ''CALL'' [BitVecVal 0, BitVecVal 4, BitVecVal 0,
                                   BitVecVal 0, BitVecVal 5, BitVecVal 100] []
   \<and> full = machine_state ''DELEGATECALL'' [BitVecVal 0, BitVecVal 0, BitVecVal 4, BitVecVal 0,
                                   BitVecVal 5, BitVecVal 100] []
   \<and> \<not> stack_sufficient short \<and> stack_sufficient full
   \<and> loop_body 9 \<lparr>uid = 0, states = [full, short]\<rparr> short (1, []) = Inl IndexError
   \<and> (\<exists>s'. loop_body 9 \<lparr>uid = 0, states = [full, short]\<rparr> full (0, []) = Inr s')
   \<and> extract_calls 9 [(0, \<lparr>uid = 0, states = [full, short]\<rparr>)] = Inl IndexError
   \<and> (\<exists>out. extract_calls 9 [(0, \<lparr>uid = 0, states = [full]\<rparr>),
                               (1, \<lparr>uid = 1, states = [full, full]\<rparr>)] = Inr out)"
proof -
  let ?short = "machine_state ''CALL'' [BitVecVal 0, BitVecVal 4, BitVecVal 0,
                                   BitVecVal 0, BitVecVal 5, BitVecVal 100] []"
  let ?full = "machine_state ''DELEGATECALL'' [BitVecVal 0, BitVecVal 0, BitVecVal 4, BitVecVal 0,
                                   BitVecVal 5, BitVecVal 100] []"
  let ?nd = "\<lparr>uid = 0, states = [?full, ?short]\<rparr>"
  have ns: "\<not> stack_sufficient ?short"
    by (simp add: stack_sufficient_def operand_count_def machine_state_def
        get_current_instruction_def)
  have sf: "stack_sufficient ?full"
    by (simp add: stack_sufficient_def operand_count_def machine_state_def
        get_current_instruction_def)
  from extraction_needs_operands[of ?short 9 ?nd "(1, [])" "[(0, ?nd)]"] ns
  have A: "loop_body 9 ?nd ?short (1, []) = Inl IndexError"
    and B: "extract_calls 9 [(0, ?nd)] = Inl IndexError"
    by simp_all
  from extraction_needs_operands[of ?full 9 ?nd "(0, [])"
      "[(0, \<lparr>uid = 0, states = [?full]\<rparr>), (1, \<lparr>uid = 1, states = [?full, ?full]\<rparr>)]"] sf
  have C: "\<exists>s'. loop_body 9 ?nd ?full (0, []) = Inr s'"
    and D: "\<exists>out. extract_calls 9 [(0, \<lparr>uid = 0, states = [?full]\<rparr>),
                               (1, \<lparr>uid = 1, states = [?full, ?full]\<rparr>)] = Inr out"
    by simp_all
  from ns sf A B C D show ?thesis by blast
qed

subsection \<open>Order of the records\<close>

text \<open>
  Both loops run their body once per element, in order, and the body only appends:
  the records of an earlier state or node precede those of a later one.
\<close>

lemma for_states_append:
  "for_states PC nd (xs @ ys) s = bind (for_states PC nd xs s) (for_states PC nd ys)"
proof (induction xs arbitrary: s)
  case Nil
  show ?case by (simp add: bind_def)
next
  case (Cons x xs)
  show ?case
    by (cases "loop_body PC nd x s") (simp_all add: bind_def Cons.IH)
qed

lemma for_nodes_append:
  "for_nodes PC (g1 @ g2) cs = bind (for_nodes PC g1 cs) (for_nodes PC g2)"
proof (induction g1 arbitrary: cs)
  case Nil
  show ?case by (simp add: bind_def)
next
  case (Cons kn rest)
  obtain key nd where kn: "kn = (key, nd)" by (cases kn)
  show ?case
    by (cases "for_states PC nd (states nd) (0, cs)") (simp_all add: kn bind_def Cons.IH)
qed

lemma for_states_extends:
  "for_states PC nd sts (i, cs) = Inr (j, cs') \<Longrightarrow> \<exists>new. cs' = cs @ new"
proof (induction sts arbitrary: i cs)
  case Nil
  then show ?case by simp
next
  case (Cons y ys)
  from Cons.prems obtain i1 c1 where b: "loop_body PC nd y (i, cs) = Inr (i1, c1)"
    and r: "for_states PC nd ys (i1, c1) = Inr (j, cs')"
    by (auto simp: bind_def split: sum.splits)
  from body_new_state[OF b] obtain n1 where "c1 = cs @ n1" by blast
  moreover from Cons.IH[OF r] obtain n2 where "cs' = c1 @ n2" by blast
  ultimately show ?case by simp
qed

lemma for_nodes_extends:
  "for_nodes PC graph cs = Inr out \<Longrightarrow> \<exists>new. out = cs @ new"
proof (induction graph arbitrary: cs)
  case Nil
  then show ?case by simp
next
  case (Cons kn rest)
  obtain key nd where kn: "kn = (key, nd)" by (cases kn)
  from Cons.prems kn obtain j c1 where s: "for_states PC nd (states nd) (0, cs) = Inr (j, c1)"
    and r: "for_nodes PC rest c1 = Inr out"
    by (auto simp: bind_def split: sum.splits)
  from for_states_extends[OF s] obtain n1 where "c1 = cs @ n1" by blast
  moreover from Cons.IH[OF r] obtain n2 where "out = c1 @ n2" by blast
  ultimately show ?case by simp
qed

lemma discarded_state_keeps_index:
  assumes "opcode (get_current_instruction st) \<in> {''CALL'', ''CALLCODE''}"
    and "stack (mstate st) = below @ [e7, e6, e5, e4, e3, e2, e1]"
    and "is_prebuilt PC (get_variable e2)"
  shows "for_states PC nd (st # rest) (i, cs) = for_states PC nd rest (i, cs)"
  by (simp add: bind_def body_prebuilt[OF assms])

text \<open>
  C7. Records follow the order of the nodes and, within a node, of the states. The index
  a record carries is the running \<^verbatim>\<open>state_index\<close>, which a discarded state does not
  advance: in a node whose first state is a \<^verbatim>\<open>CALL\<close> to the precompile address 1 and
  whose second state is a \<^verbatim>\<open>CALL\<close> to \<^verbatim>\<open>0xdead\<close>, the one record emitted refers to the
  second state, at position 1, and carries the index 0.
\<close>

theorem state_index_not_advanced_by_discarded_state:
  "\<exists>pre call nd r.
     pre = machine_state ''CALL'' [BitVecVal 0, BitVecVal 0, BitVecVal 0, BitVecVal 0,
                                 BitVecVal 0, BitVecVal 1, BitVecVal 100] []
   \<and> call = machine_state ''CALL'' [BitVecVal 0, BitVecVal 0, BitVecVal 0, BitVecVal 0,
                                 BitVecVal 0, BitVecVal 0xdead, BitVecVal 100] []
   \<and> nd = \<lparr>uid = 0, states = [pre, call]\<rparr>
   \<and> extract_calls 9 [(0, nd)] = Inr [r]
   \<and> state r = call \<and> states nd ! 1 = call \<and> state_index r = 0
   \<and> states nd ! state_index r \<noteq> state r"
proof -
  let ?pre = "machine_state ''CALL'' [BitVecVal 0, BitVecVal 0, BitVecVal 0, BitVecVal 0,
                                 BitVecVal 0, BitVecVal 1, BitVecVal 100] []"
  let ?call = "machine_state ''CALL'' [BitVecVal 0, BitVecVal 0, BitVecVal 0, BitVecVal 0,
                                 BitVecVal 0, BitVecVal 0xdead, BitVecVal 100] []"
  let ?nd = "\<lparr>uid = 0, states = [?pre, ?call]\<rparr>"
  let ?r = "\<lparr>node = ?nd, state = ?call, state_index = 0, type = ''CALL'',
             to = Concrete 0xdead, gas = Concrete 100, call_value = Some (Concrete 0),
             data = Some []\<rparr>"
  have run: "extract_calls 9 [(0, ?nd)] = Inr [?r]"
    by (simp add: evs)
  have ne: "states ?nd ! state_index ?r \<noteq> state ?r"
    by (simp add: machine_state_def)
  have "state ?r = ?call \<and> states ?nd ! 1 = ?call \<and> state_index ?r = 0" by simp
  with run ne show ?thesis by blast
qed

section \<open>Properties of the constructor\<close>

lemma hex_uint_eq_iff [simp]: "(hex (uint (a :: 256 word)) = hex (uint b)) = (a = b)"
  using hex_uint_inj by blast

lemmas session_defs = extend_strategy_def plugin_load_def register_hooks_def

lemma init_Inr:
  assumes "SymExecWrapper_init c a = Inr w"
  obtains addr s where "normalize_address c (address a) = Inr addr"
    and "select_strategy (strategy a) = Inr s"
  using assms by (auto simp: SymExecWrapper_init_def bind_def split: sum.splits)

lemma init_fields:
  assumes "SymExecWrapper_init c a = Inr w"
    and "normalize_address c (address a) = Inr addr"
    and "select_strategy (strategy a) = Inr s"
  shows "accounts w = bootstrap_accounts c (contract a)"
    and "executed w = snd (dispatch a addr
           (foldl put_account Map.empty (dict_values (bootstrap_accounts c (contract a)))))"
    and "svm_requires_statespace (laser w) = requires_statespace c a"
    and "svm_strategy (laser w) = s"
    and "\<not> requires_statespace c a \<Longrightarrow> nodes w = None \<and> edges w = None \<and> calls w = None"
    and "requires_statespace c a \<Longrightarrow>
           nodes w = Some (fst (sym_exec c (laser w) (executed w)))
         \<and> edges w = Some (snd (sym_exec c (laser w) (executed w)))
         \<and> (\<exists>cs. calls w = Some cs
              \<and> extract_calls (precompile_count c) (fst (sym_exec c (laser w) (executed w))) = Inr cs)"
  using assms
  by (cases "loop_bound a"; cases "disable_dependency_pruning a"; cases "run_analysis_modules a";
      auto simp: SymExecWrapper_init_def bind_def Let_def session_defs
           split: sum.splits if_splits)+

lemma init_without_statespace:
  assumes "normalize_address c (address a) = Inr addr"
    and "select_strategy (strategy a) = Inr s"
    and "\<not> requires_statespace c a"
  shows "\<exists>w. SymExecWrapper_init c a = Inr w"
  using assms by (simp add: SymExecWrapper_init_def bind_def Let_def)

lemma init_invalid_strategy:
  assumes "select_strategy (strategy a) = Inl e"
  shows "SymExecWrapper_init c a = Inl e
       \<or> (\<exists>e'. normalize_address c (address a) = Inl e' \<and> SymExecWrapper_init c a = Inl e')"
  using assms
  by (cases "normalize_address c (address a)") (simp_all add: SymExecWrapper_init_def bind_def)

section \<open>Claims about the constructor\<close>

text \<open>
  C4. The statespace is kept if and only if the caller forces it or the module loader
  returns at least one module for the phase \<^verbatim>\<open>POST\<close> and the selected modules: this is
  the flag handed to the engine, and exactly then the attributes \<^verbatim>\<open>nodes\<close>, \<^verbatim>\<open>edges\<close>
  and \<^verbatim>\<open>calls\<close> are set, to the engine's statespace and to the records extracted from
  it. Otherwise the three attributes are absent and the constructor returns without
  running the extraction, whatever statespace the engine holds.
\<close>

theorem graph_retention:
  "(\<forall>w. SymExecWrapper_init c a = Inr w \<longrightarrow>
        (svm_requires_statespace (laser w) \<longleftrightarrow>
           compulsory_statespace a \<or> 0 < length (get_detection_modules c POST (modules a)))
      \<and> (nodes w \<noteq> None \<longleftrightarrow>
           compulsory_statespace a \<or> 0 < length (get_detection_modules c POST (modules a)))
      \<and> (edges w \<noteq> None \<longleftrightarrow>
           compulsory_statespace a \<or> 0 < length (get_detection_modules c POST (modules a)))
      \<and> (calls w \<noteq> None \<longleftrightarrow>
           compulsory_statespace a \<or> 0 < length (get_detection_modules c POST (modules a)))
      \<and> (compulsory_statespace a \<or> 0 < length (get_detection_modules c POST (modules a)) \<longrightarrow>
             nodes w = Some (fst (sym_exec c (laser w) (executed w)))
           \<and> edges w = Some (snd (sym_exec c (laser w) (executed w)))
           \<and> (\<exists>cs. calls w = Some cs
                \<and> extract_calls (precompile_count c)
                     (fst (sym_exec c (laser w) (executed w))) = Inr cs)))
   \<and> ((\<exists>addr. normalize_address c (address a) = Inr addr)
        \<and> (\<exists>s. select_strategy (strategy a) = Inr s)
        \<and> \<not> compulsory_statespace a
        \<and> length (get_detection_modules c POST (modules a)) = 0
      \<longrightarrow> (\<exists>w. SymExecWrapper_init c a = Inr w))"
proof -
  let ?R = "compulsory_statespace a \<or> 0 < length (get_detection_modules c POST (modules a))"
  have R: "requires_statespace c a = ?R" by (simp add: requires_statespace_def)
  have part1: "\<forall>w. SymExecWrapper_init c a = Inr w \<longrightarrow>
        (svm_requires_statespace (laser w) \<longleftrightarrow> ?R)
      \<and> (nodes w \<noteq> None \<longleftrightarrow> ?R) \<and> (edges w \<noteq> None \<longleftrightarrow> ?R) \<and> (calls w \<noteq> None \<longleftrightarrow> ?R)
      \<and> (?R \<longrightarrow>
             nodes w = Some (fst (sym_exec c (laser w) (executed w)))
           \<and> edges w = Some (snd (sym_exec c (laser w) (executed w)))
           \<and> (\<exists>cs. calls w = Some cs
                \<and> extract_calls (precompile_count c)
                     (fst (sym_exec c (laser w) (executed w))) = Inr cs))"
  proof (intro allI impI)
    fix w assume w: "SymExecWrapper_init c a = Inr w"
    from init_Inr[OF w] obtain addr s where n: "normalize_address c (address a) = Inr addr"
      and s: "select_strategy (strategy a) = Inr s" by blast
    note f = init_fields[OF w n s]
    show "(svm_requires_statespace (laser w) \<longleftrightarrow> ?R)
      \<and> (nodes w \<noteq> None \<longleftrightarrow> ?R) \<and> (edges w \<noteq> None \<longleftrightarrow> ?R) \<and> (calls w \<noteq> None \<longleftrightarrow> ?R)
      \<and> (?R \<longrightarrow>
             nodes w = Some (fst (sym_exec c (laser w) (executed w)))
           \<and> edges w = Some (snd (sym_exec c (laser w) (executed w)))
           \<and> (\<exists>cs. calls w = Some cs
                \<and> extract_calls (precompile_count c)
                     (fst (sym_exec c (laser w) (executed w))) = Inr cs))"
    proof (cases "requires_statespace c a")
      case True
      with f(3,6) R show ?thesis by auto
    next
      case False
      with f(3,5) R show ?thesis by auto
    qed
  qed
  have part2: "(\<exists>addr. normalize_address c (address a) = Inr addr)
        \<and> (\<exists>s. select_strategy (strategy a) = Inr s)
        \<and> \<not> compulsory_statespace a
        \<and> length (get_detection_modules c POST (modules a)) = 0
      \<longrightarrow> (\<exists>w. SymExecWrapper_init c a = Inr w)"
    using init_without_statespace[of c a] R by auto
  from part1 part2 show ?thesis by blast
qed


lemmas init_evs = SymExecWrapper_init_def normalize_address_def select_strategy_def
  requires_statespace_def bootstrap_accounts_def dict_display_def dict_values_def
  put_account_def dispatch_def creator_account_def attacker_account_def truthy_def
  session_defs sample_collaborators_def sample_args_def bind_def Let_def

theorem graph_retention_witness:
  "\<exists>c0 c1 a w0 w1.
     c0 = sample_collaborators [CALLBACK] [(0, \<lparr>uid = 0, states = [machine_state ''CALL'' [] []]\<rparr>)]
   \<and> c1 = sample_collaborators [POST] [(0, \<lparr>uid = 0, states = [machine_state ''STOP'' [] []]\<rparr>)]
   \<and> a = sample_args \<lparr>contract_class = EVMContract, creation_code = [], name = ''C'',
                      disassembly = ''6000''\<rparr> ''dfs'' False
   \<and> \<not> compulsory_statespace a
   \<and> length (get_detection_modules c0 POST (modules a)) = 0
   \<and> 0 < length (get_detection_modules c1 POST (modules a))
   \<and> extract_calls 9 [(0, \<lparr>uid = 0, states = [machine_state ''CALL'' [] []]\<rparr>)] = Inl IndexError
   \<and> SymExecWrapper_init c0 a = Inr w0
   \<and> \<not> svm_requires_statespace (laser w0)
   \<and> nodes w0 = None \<and> edges w0 = None \<and> calls w0 = None
   \<and> SymExecWrapper_init c1 a = Inr w1
   \<and> svm_requires_statespace (laser w1)
   \<and> nodes w1 = Some [(0, \<lparr>uid = 0, states = [machine_state ''STOP'' [] []]\<rparr>)]
   \<and> edges w1 = Some [] \<and> calls w1 = Some []"
proof -
  let ?g0 = "[(0::nat, \<lparr>uid = 0, states = [machine_state ''CALL'' [] []]\<rparr>)]"
  let ?g1 = "[(0::nat, \<lparr>uid = 0, states = [machine_state ''STOP'' [] []]\<rparr>)]"
  let ?c0 = "sample_collaborators [CALLBACK] ?g0"
  let ?c1 = "sample_collaborators [POST] ?g1"
  let ?a = "sample_args \<lparr>contract_class = EVMContract, creation_code = [], name = ''C'',
                      disassembly = ''6000''\<rparr> ''dfs'' False"
  have h1: "\<exists>addr. normalize_address ?c0 (address ?a) = Inr addr"
    by (simp add: normalize_address_def sample_args_def)
  have h2: "\<exists>s. select_strategy (strategy ?a) = Inr s"
    by (simp add: select_strategy_def sample_args_def)
  have h3: "\<not> compulsory_statespace ?a" by (simp add: sample_args_def)
  have h4: "length (get_detection_modules ?c0 POST (modules ?a)) = 0"
    by (simp add: sample_collaborators_def)
  have h5: "0 < length (get_detection_modules ?c1 POST (modules ?a))"
    by (simp add: sample_collaborators_def)
  have bad: "extract_calls 9 ?g0 = Inl IndexError"
    by (simp add: evs)
  have good: "extract_calls 9 ?g1 = Inr []"
    by (simp add: evs)
  note T0 = graph_retention[of ?c0 ?a]
  from T0 h1 h2 h3 h4 obtain w0 where w0: "SymExecWrapper_init ?c0 ?a = Inr w0" by blast
  from T0 w0 h3 h4 have A: "\<not> svm_requires_statespace (laser w0)"
    "nodes w0 = None" "edges w0 = None" "calls w0 = None" by auto
  have "\<exists>w1. SymExecWrapper_init ?c1 ?a = Inr w1"
    using good by (simp add: init_evs)
  then obtain w1 where w1: "SymExecWrapper_init ?c1 ?a = Inr w1" by blast
  note T1 = graph_retention[of ?c1 ?a]
  from T1 w1 h5 have B: "svm_requires_statespace (laser w1)"
    and C: "nodes w1 = Some (fst (sym_exec ?c1 (laser w1) (executed w1)))"
    and D: "edges w1 = Some (snd (sym_exec ?c1 (laser w1) (executed w1)))"
    and E: "\<exists>cs. calls w1 = Some cs
                \<and> extract_calls (precompile_count ?c1)
                     (fst (sym_exec ?c1 (laser w1) (executed w1))) = Inr cs"
    by blast+
  from C have C': "nodes w1 = Some ?g1" by (simp add: sample_collaborators_def)
  from D have D': "edges w1 = Some []" by (simp add: sample_collaborators_def)
  from E good have E': "calls w1 = Some []" by (auto simp: sample_collaborators_def)
  from h3 h4 h5 bad w0 A w1 B C' D' E' show ?thesis by blast
qed

text \<open>
  C5. The strategy selector maps each of the four names to its own search strategy, and
  fails on every other name with the \<^verbatim>\<open>ValueError\<close> of line 96. In the constructor this
  happens before anything is built: with such a name the constructor returns an error
  and no object, and the error is the selector's whenever the address is accepted.
\<close>

theorem strategy_selection:
  "select_strategy ''dfs'' = Inr DepthFirstSearchStrategy
   \<and> select_strategy ''bfs'' = Inr BreadthFirstSearchStrategy
   \<and> select_strategy ''naive-random'' = Inr ReturnRandomNaivelyStrategy
   \<and> select_strategy ''weighted-random'' = Inr ReturnWeightedRandomStrategy
   \<and> distinct [DepthFirstSearchStrategy, BreadthFirstSearchStrategy,
               ReturnRandomNaivelyStrategy, ReturnWeightedRandomStrategy]
   \<and> (\<forall>w. SymExecWrapper_init c a = Inr w \<longrightarrow>
          select_strategy (strategy a) = Inr (svm_strategy (laser w)))
   \<and> (strategy a \<notin> {''dfs'', ''bfs'', ''naive-random'', ''weighted-random''} \<longrightarrow>
          select_strategy (strategy a) = Inl (ValueError ''Invalid strategy argument supplied'')
        \<and> (\<exists>e. SymExecWrapper_init c a = Inl e)
        \<and> (\<forall>addr. normalize_address c (address a) = Inr addr \<longrightarrow>
              SymExecWrapper_init c a = Inl (ValueError ''Invalid strategy argument supplied'')))"
proof -
  have names: "select_strategy ''dfs'' = Inr DepthFirstSearchStrategy
   \<and> select_strategy ''bfs'' = Inr BreadthFirstSearchStrategy
   \<and> select_strategy ''naive-random'' = Inr ReturnRandomNaivelyStrategy
   \<and> select_strategy ''weighted-random'' = Inr ReturnWeightedRandomStrategy"
    by (simp add: select_strategy_def)
  have dist: "distinct [DepthFirstSearchStrategy, BreadthFirstSearchStrategy,
               ReturnRandomNaivelyStrategy, ReturnWeightedRandomStrategy]"
    by simp
  have ok: "\<forall>w. SymExecWrapper_init c a = Inr w \<longrightarrow>
          select_strategy (strategy a) = Inr (svm_strategy (laser w))"
  proof (intro allI impI)
    fix w assume w: "SymExecWrapper_init c a = Inr w"
    from init_Inr[OF w] obtain addr s where n: "normalize_address c (address a) = Inr addr"
      and s: "select_strategy (strategy a) = Inr s" by blast
    from init_fields(4)[OF w n s] s
    show "select_strategy (strategy a) = Inr (svm_strategy (laser w))" by simp
  qed
  have bad: "strategy a \<notin> {''dfs'', ''bfs'', ''naive-random'', ''weighted-random''} \<longrightarrow>
          select_strategy (strategy a) = Inl (ValueError ''Invalid strategy argument supplied'')
        \<and> (\<exists>e. SymExecWrapper_init c a = Inl e)
        \<and> (\<forall>addr. normalize_address c (address a) = Inr addr \<longrightarrow>
              SymExecWrapper_init c a = Inl (ValueError ''Invalid strategy argument supplied''))"
  proof
    assume b: "strategy a \<notin> {''dfs'', ''bfs'', ''naive-random'', ''weighted-random''}"
    then have sel: "select_strategy (strategy a) =
                     Inl (ValueError ''Invalid strategy argument supplied'')"
      by (simp add: select_strategy_def)
    from init_invalid_strategy[OF sel, of c]
    have e: "\<exists>e. SymExecWrapper_init c a = Inl e" by blast
    have "\<forall>addr. normalize_address c (address a) = Inr addr \<longrightarrow>
              SymExecWrapper_init c a = Inl (ValueError ''Invalid strategy argument supplied'')"
      using sel by (simp add: SymExecWrapper_init_def bind_def)
    with sel e show "select_strategy (strategy a) =
            Inl (ValueError ''Invalid strategy argument supplied'')
        \<and> (\<exists>e. SymExecWrapper_init c a = Inl e)
        \<and> (\<forall>addr. normalize_address c (address a) = Inr addr \<longrightarrow>
              SymExecWrapper_init c a = Inl (ValueError ''Invalid strategy argument supplied''))"
      by blast
  qed
  from names dist ok bad show ?thesis by blast
qed

theorem strategy_selection_witness:
  "\<exists>c good bad w.
     c = sample_collaborators [] []
   \<and> good = sample_args \<lparr>contract_class = EVMContract, creation_code = [], name = ''C'',
                         disassembly = ''6000''\<rparr> ''bfs'' False
   \<and> bad = sample_args \<lparr>contract_class = EVMContract, creation_code = [], name = ''C'',
                         disassembly = ''6000''\<rparr> ''random'' True
   \<and> strategy bad \<notin> {''dfs'', ''bfs'', ''naive-random'', ''weighted-random''}
   \<and> normalize_address c (address bad) = Inr (BitVecVal 16)
   \<and> select_strategy ''random'' = Inl (ValueError ''Invalid strategy argument supplied'')
   \<and> SymExecWrapper_init c bad = Inl (ValueError ''Invalid strategy argument supplied'')
   \<and> SymExecWrapper_init c good = Inr w
   \<and> svm_strategy (laser w) = BreadthFirstSearchStrategy"
proof -
  let ?c = "sample_collaborators [] []"
  let ?ct = "\<lparr>contract_class = EVMContract, creation_code = [], name = ''C'',
                         disassembly = ''6000''\<rparr>"
  let ?good = "sample_args ?ct ''bfs'' False"
  let ?bad = "sample_args ?ct ''random'' True"
  have h: "strategy ?bad \<notin> {''dfs'', ''bfs'', ''naive-random'', ''weighted-random''}"
    by (simp add: sample_args_def)
  have n: "normalize_address ?c (address ?bad) = Inr (BitVecVal 16)"
    by (simp add: normalize_address_def sample_args_def)
  have sb: "strategy ?bad = ''random''" by (simp add: sample_args_def)
  from strategy_selection[of ?c ?bad] h n sb
  have A: "select_strategy ''random'' = Inl (ValueError ''Invalid strategy argument supplied'')"
    and B: "SymExecWrapper_init ?c ?bad = Inl (ValueError ''Invalid strategy argument supplied'')"
    by auto
  have "\<exists>w. SymExecWrapper_init ?c ?good = Inr w"
    by (simp add: init_evs)
  then obtain w where w: "SymExecWrapper_init ?c ?good = Inr w" by blast
  have sg: "strategy ?good = ''bfs''" by (simp add: sample_args_def)
  from strategy_selection[of ?c ?good] w sg
  have C: "svm_strategy (laser w) = BreadthFirstSearchStrategy" by auto
  from h n A B w C show ?thesis by blast
qed

text \<open>
  C6. Without creation bytecode the accounts are the attacker account alone; with
  creation bytecode they are the creator account and the attacker account, in this
  order, under the hexadecimal rendering of the two actor addresses (two entries, the
  two addresses of \<^verbatim>\<open>ACTORS\<close> being different). Each actor account has its actor's
  address, empty bytecode, no dynamic loader and no contract name. These are the accounts
  of the constructed object.
\<close>

theorem account_bootstrapping:
  "(\<not> truthy (creation_code ct) \<longrightarrow>
      bootstrap_accounts c ct =
        [(hex (uint (actors_attacker c)),
          \<lparr>account_address = BitVecVal (actors_attacker c), account_code = [],
           dynamic_loader = None, contract_name = None, concrete_storage = None\<rparr>)]
    \<and> length (bootstrap_accounts c ct) = 1)
   \<and> (truthy (creation_code ct) \<and> actors_creator c \<noteq> actors_attacker c \<longrightarrow>
      bootstrap_accounts c ct =
        [(hex (uint (actors_creator c)),
          \<lparr>account_address = BitVecVal (actors_creator c), account_code = [],
           dynamic_loader = None, contract_name = None, concrete_storage = None\<rparr>),
         (hex (uint (actors_attacker c)),
          \<lparr>account_address = BitVecVal (actors_attacker c), account_code = [],
           dynamic_loader = None, contract_name = None, concrete_storage = None\<rparr>)]
    \<and> length (bootstrap_accounts c ct) = 2
    \<and> distinct (map fst (bootstrap_accounts c ct)))
   \<and> (\<forall>w. SymExecWrapper_init c a = Inr w \<longrightarrow> accounts w = bootstrap_accounts c (contract a))"
proof -
  have one: "\<not> truthy (creation_code ct) \<longrightarrow>
      bootstrap_accounts c ct =
        [(hex (uint (actors_attacker c)),
          \<lparr>account_address = BitVecVal (actors_attacker c), account_code = [],
           dynamic_loader = None, contract_name = None, concrete_storage = None\<rparr>)]
    \<and> length (bootstrap_accounts c ct) = 1"
    by (simp add: bootstrap_accounts_def dict_display_def attacker_account_def)
  have two: "truthy (creation_code ct) \<and> actors_creator c \<noteq> actors_attacker c \<longrightarrow>
      bootstrap_accounts c ct =
        [(hex (uint (actors_creator c)),
          \<lparr>account_address = BitVecVal (actors_creator c), account_code = [],
           dynamic_loader = None, contract_name = None, concrete_storage = None\<rparr>),
         (hex (uint (actors_attacker c)),
          \<lparr>account_address = BitVecVal (actors_attacker c), account_code = [],
           dynamic_loader = None, contract_name = None, concrete_storage = None\<rparr>)]
    \<and> length (bootstrap_accounts c ct) = 2
    \<and> distinct (map fst (bootstrap_accounts c ct))"
    by (simp add: bootstrap_accounts_def dict_display_def attacker_account_def
        creator_account_def)
  have obj: "\<forall>w. SymExecWrapper_init c a = Inr w \<longrightarrow> accounts w = bootstrap_accounts c (contract a)"
  proof (intro allI impI)
    fix w assume w: "SymExecWrapper_init c a = Inr w"
    from init_Inr[OF w] obtain addr s where n: "normalize_address c (address a) = Inr addr"
      and s: "select_strategy (strategy a) = Inr s" by blast
    from init_fields(1)[OF w n s] show "accounts w = bootstrap_accounts c (contract a)" .
  qed
  from one two obj show ?thesis by blast
qed


theorem account_bootstrapping_witness:
  "\<exists>c deployed creating a w.
     c = sample_collaborators [] []
   \<and> deployed = \<lparr>contract_class = EVMContract, creation_code = [], name = ''C'',
                  disassembly = ''6000''\<rparr>
   \<and> creating = \<lparr>contract_class = EVMContract, creation_code = ''6080'', name = ''C'',
                  disassembly = ''6000''\<rparr>
   \<and> \<not> truthy (creation_code deployed)
   \<and> truthy (creation_code creating)
   \<and> actors_creator c \<noteq> actors_attacker c
   \<and> length (bootstrap_accounts c deployed) = 1
   \<and> map (account_address \<circ> snd) (bootstrap_accounts c deployed) = [BitVecVal 0xDEADBEEF]
   \<and> map (account_code \<circ> snd) (bootstrap_accounts c deployed) = [[]]
   \<and> length (bootstrap_accounts c creating) = 2
   \<and> map (account_address \<circ> snd) (bootstrap_accounts c creating)
       = [BitVecVal 0xAFFE, BitVecVal 0xDEADBEEF]
   \<and> map (account_code \<circ> snd) (bootstrap_accounts c creating) = [[], []]
   \<and> distinct (map fst (bootstrap_accounts c creating))
   \<and> a = sample_args creating ''dfs'' False
   \<and> SymExecWrapper_init c a = Inr w
   \<and> accounts w = bootstrap_accounts c creating"
proof -
  let ?c = "sample_collaborators [] []"
  let ?deployed = "\<lparr>contract_class = EVMContract, creation_code = [], name = ''C'',
                  disassembly = ''6000''\<rparr>"
  let ?creating = "\<lparr>contract_class = EVMContract, creation_code = ''6080'', name = ''C'',
                  disassembly = ''6000''\<rparr>"
  let ?a = "sample_args ?creating ''dfs'' False"
  have h1: "\<not> truthy (creation_code ?deployed)" by (simp add: truthy_def)
  have h2: "truthy (creation_code ?creating)" by (simp add: truthy_def)
  have h3: "actors_creator ?c \<noteq> actors_attacker ?c" by (simp add: sample_collaborators_def)
  have cr: "actors_creator ?c = 0xAFFE" by (simp add: sample_collaborators_def)
  have at: "actors_attacker ?c = 0xDEADBEEF" by (simp add: sample_collaborators_def)
  note T1 = account_bootstrapping[where c = ?c and ct = ?deployed and a = ?a]
  note T2 = account_bootstrapping[where c = ?c and ct = ?creating and a = ?a]
  from T1 h1 have A: "bootstrap_accounts ?c ?deployed =
        [(hex (uint (actors_attacker ?c)),
          \<lparr>account_address = BitVecVal (actors_attacker ?c), account_code = [],
           dynamic_loader = None, contract_name = None, concrete_storage = None\<rparr>)]"
    by blast
  from T2 h2 h3 have B: "bootstrap_accounts ?c ?creating =
        [(hex (uint (actors_creator ?c)),
          \<lparr>account_address = BitVecVal (actors_creator ?c), account_code = [],
           dynamic_loader = None, contract_name = None, concrete_storage = None\<rparr>),
         (hex (uint (actors_attacker ?c)),
          \<lparr>account_address = BitVecVal (actors_attacker ?c), account_code = [],
           dynamic_loader = None, contract_name = None, concrete_storage = None\<rparr>)]"
    and D: "distinct (map fst (bootstrap_accounts ?c ?creating))"
    by blast+
  have A1: "length (bootstrap_accounts ?c ?deployed) = 1" by (simp only: A) simp
  have A2: "map (account_address \<circ> snd) (bootstrap_accounts ?c ?deployed) = [BitVecVal 0xDEADBEEF]"
    by (simp only: A at) simp
  have A3: "map (account_code \<circ> snd) (bootstrap_accounts ?c ?deployed) = [[]]"
    by (simp only: A) simp
  have B1: "length (bootstrap_accounts ?c ?creating) = 2" by (simp only: B) simp
  have B2: "map (account_address \<circ> snd) (bootstrap_accounts ?c ?creating)
       = [BitVecVal 0xAFFE, BitVecVal 0xDEADBEEF]"
    by (simp only: B at cr) simp
  have B3: "map (account_code \<circ> snd) (bootstrap_accounts ?c ?creating) = [[], []]"
    by (simp only: B) simp
  have "\<exists>w. SymExecWrapper_init ?c ?a = Inr w"
    by (simp add: init_evs)
  then obtain w where w: "SymExecWrapper_init ?c ?a = Inr w" by blast
  have ca: "contract ?a = ?creating" by (simp add: sample_args_def)
  from T2 w have "accounts w = bootstrap_accounts ?c (contract ?a)" by blast
  with ca have E: "accounts w = bootstrap_accounts ?c ?creating" by simp
  from h1 h2 h3 A1 A2 A3 B1 B2 B3 D w E show ?thesis
    by (intro exI conjI) (rule refl | assumption)+
qed

text \<open>
  C8. A Solidity contract, and an EVM contract that carries creation code, are run as a
  creation transaction of the creation code, under the contract's name, on the world
  state of the actor accounts. Every other contract is run from its deployed code: one
  account is built at the normalised target address, with the contract's disassembly,
  the dynamic loader, the contract's name, and concrete storage exactly when a dynamic
  loader is given and its storage loading is enabled; this account is put into the world
  state of the actor accounts, and the session enters at the value of that address.
\<close>

theorem run_dispatch:
  assumes "SymExecWrapper_init c a = Inr w"
  shows "\<exists>addr. normalize_address c (address a) = Inr addr
     \<and> ((contract_class (contract a) = SolidityContract
           \<or> contract_class (contract a) = EVMContract \<and> creation_code (contract a) \<noteq> [])
         \<longrightarrow> executed w =
               CreationTransaction (creation_code (contract a)) (name (contract a))
                 (foldl put_account Map.empty (dict_values (accounts w))))
     \<and> (\<not> (contract_class (contract a) = SolidityContract
           \<or> contract_class (contract a) = EVMContract \<and> creation_code (contract a) \<noteq> [])
         \<longrightarrow> executed w =
               DirectEntry
                 ((foldl put_account Map.empty (dict_values (accounts w)))
                    (bv_value addr \<mapsto>
                       \<lparr>account_address = addr, account_code = disassembly (contract a),
                        dynamic_loader = dynloader a, contract_name = Some (name (contract a)),
                        concrete_storage =
                          Some (\<exists>d. dynloader a = Some d \<and> storage_loading d)\<rparr>))
                 (bv_value addr))"
proof -
  from init_Inr[OF assms] obtain addr s where n: "normalize_address c (address a) = Inr addr"
    and s: "select_strategy (strategy a) = Inr s" by blast
  note f = init_fields(1,2)[OF assms n s]
  let ?ws = "foldl put_account Map.empty (dict_values (accounts w))"
  have e: "executed w = snd (dispatch a addr ?ws)" using f by simp
  have cs: "(case dynloader a of None \<Rightarrow> False | Some d \<Rightarrow> storage_loading d)
            = (\<exists>d. dynloader a = Some d \<and> storage_loading d)"
    by (cases "dynloader a") simp_all
  have c1: "(contract_class (contract a) = SolidityContract
           \<or> contract_class (contract a) = EVMContract \<and> creation_code (contract a) \<noteq> [])
         \<longrightarrow> executed w =
               CreationTransaction (creation_code (contract a)) (name (contract a)) ?ws"
    unfolding e by (auto simp: dispatch_def Let_def truthy_def)
  have c2: "\<not> (contract_class (contract a) = SolidityContract
           \<or> contract_class (contract a) = EVMContract \<and> creation_code (contract a) \<noteq> [])
         \<longrightarrow> executed w =
               DirectEntry
                 (?ws(bv_value addr \<mapsto>
                       \<lparr>account_address = addr, account_code = disassembly (contract a),
                        dynamic_loader = dynloader a, contract_name = Some (name (contract a)),
                        concrete_storage =
                          Some (\<exists>d. dynloader a = Some d \<and> storage_loading d)\<rparr>))
                 (bv_value addr)"
    unfolding e by (cases "contract_class (contract a)")
      (auto simp: dispatch_def Let_def truthy_def put_account_def cs)
  from n c1 c2 show ?thesis by blast
qed

theorem run_dispatch_witness:
  "\<exists>c deployed creating w0 w1 ws0.
     c = sample_collaborators [] []
   \<and> deployed = sample_args \<lparr>contract_class = EVMContract, creation_code = [], name = ''C'',
                              disassembly = ''6000''\<rparr> ''dfs'' False
   \<and> creating = sample_args \<lparr>contract_class = EVMContract, creation_code = ''6080'',
                              name = ''C'', disassembly = ''6000''\<rparr> ''dfs'' False
   \<and> SymExecWrapper_init c deployed = Inr w0
   \<and> SymExecWrapper_init c creating = Inr w1
   \<and> normalize_address c (address deployed) = Inr (BitVecVal 16)
   \<and> executed w0 = DirectEntry ws0 (Some 16)
   \<and> ws0 (Some 16) =
       Some \<lparr>account_address = BitVecVal 16, account_code = ''6000'',
             dynamic_loader = Some \<lparr>storage_loading = True\<rparr>, contract_name = Some ''C'',
             concrete_storage = Some True\<rparr>
   \<and> executed w1 = CreationTransaction ''6080'' ''C''
                       (foldl put_account Map.empty (dict_values (accounts w1)))"
proof -
  let ?c = "sample_collaborators [] []"
  let ?deployed = "sample_args \<lparr>contract_class = EVMContract, creation_code = [], name = ''C'',
                              disassembly = ''6000''\<rparr> ''dfs'' False"
  let ?creating = "sample_args \<lparr>contract_class = EVMContract, creation_code = ''6080'',
                              name = ''C'', disassembly = ''6000''\<rparr> ''dfs'' False"
  have "\<exists>w. SymExecWrapper_init ?c ?deployed = Inr w" by (simp add: init_evs)
  then obtain w0 where w0: "SymExecWrapper_init ?c ?deployed = Inr w0" by blast
  have "\<exists>w. SymExecWrapper_init ?c ?creating = Inr w" by (simp add: init_evs)
  then obtain w1 where w1: "SymExecWrapper_init ?c ?creating = Inr w1" by blast
  have n: "normalize_address ?c (address ?deployed) = Inr (BitVecVal 16)"
    by (simp add: normalize_address_def sample_args_def)
  have d: "\<not> (contract_class (contract ?deployed) = SolidityContract
           \<or> contract_class (contract ?deployed) = EVMContract
             \<and> creation_code (contract ?deployed) \<noteq> [])"
    by (simp add: sample_args_def)
  have k: "contract_class (contract ?creating) = SolidityContract
           \<or> contract_class (contract ?creating) = EVMContract
             \<and> creation_code (contract ?creating) \<noteq> []"
    by (simp add: sample_args_def)
  from run_dispatch[OF w0] n d obtain ws0 where
    A: "executed w0 = DirectEntry ws0 (Some 16)"
    and A': "ws0 (Some 16) =
       Some \<lparr>account_address = BitVecVal 16, account_code = ''6000'',
             dynamic_loader = Some \<lparr>storage_loading = True\<rparr>, contract_name = Some ''C'',
             concrete_storage = Some True\<rparr>"
    by (auto simp: sample_args_def)
  from run_dispatch[OF w1] k
  have B0: "executed w1 = CreationTransaction (creation_code (contract ?creating))
              (name (contract ?creating))
              (foldl put_account Map.empty (dict_values (accounts w1)))"
    by blast
  then have B: "executed w1 = CreationTransaction ''6080'' ''C''
                       (foldl put_account Map.empty (dict_values (accounts w1)))"
    by (simp add: sample_args_def)
  from w0 w1 n A A' B show ?thesis by blast
qed

end
